theory Spec2Isabelle
  imports Main "HOL-Library.Sublist"
begin

section \<open>Python values and the runtime operations the plugin relies on\<close>

text \<open>
  The plugin (\<^verbatim>\<open>minion/plugins/nessus.py\<close>) passes around what \<^verbatim>\<open>r.json()\<close> returns:
  untyped JSON values. \<open>JObj\<close> lists the items of a Python dict (one item per key),
  \<open>JInt\<close> is Python's unbounded integer. Floating point numbers are not modelled.
\<close>

datatype json =
    JNull
  | JBool bool
  | JInt int
  | JStr string
  | JArr "json list"
  | JObj "(string \<times> json) list"

text \<open>The exceptions the modelled code can raise. \<open>KeyError\<close> carries the missing key.\<close>

datatype py_error =
    KeyError json
  | IndexError
  | TypeError
  | ValueError
  | AttributeError
  | CsvError

text \<open>\<^verbatim>\<open>obj[key]\<close> for a string key: only a dict can be subscripted by a string.\<close>

fun py_getitem :: "json \<Rightarrow> string \<Rightarrow> py_error + json" where
  "py_getitem (JObj kvs) k =
     (case map_of kvs k of None \<Rightarrow> Inl (KeyError (JStr k)) | Some v \<Rightarrow> Inr v)"
| "py_getitem _ k = Inl TypeError"

text \<open>\<^verbatim>\<open>for p in obj\<close>: a list yields its elements, a dict its keys, a string its
  characters; nothing else is iterable.\<close>

fun py_iter :: "json \<Rightarrow> py_error + json list" where
  "py_iter (JArr xs) = Inr xs"
| "py_iter (JObj kvs) = Inr (map (\<lambda>kv. JStr (fst kv)) kvs)"
| "py_iter (JStr s) = Inr (map (\<lambda>c. JStr [c]) s)"
| "py_iter _ = Inl TypeError"

text \<open>\<^verbatim>\<open>'literal' + obj\<close>: concatenation is defined for a string operand only.\<close>

fun py_concat :: "string \<Rightarrow> json \<Rightarrow> py_error + string" where
  "py_concat s (JStr t) = Inr (s @ t)"
| "py_concat s _ = Inl TypeError"

text \<open>
  Dict keys. Lists and dicts are unhashable (\<open>TypeError\<close>); \<^verbatim>\<open>True\<close> and \<^verbatim>\<open>1\<close>
  (and \<^verbatim>\<open>False\<close> and \<^verbatim>\<open>0\<close>) are equal and hash alike, so they name the same key.
  \<open>py_key\<close> gives the representative under which a key is stored and looked up.
\<close>

fun py_key :: "json \<Rightarrow> py_error + json" where
  "py_key (JArr xs) = Inl TypeError"
| "py_key (JObj kvs) = Inl TypeError"
| "py_key (JBool b) = Inr (JInt (if b then 1 else 0))"
| "py_key v = Inr v"

type_synonym py_dict = "json \<rightharpoonup> json"

text \<open>\<^verbatim>\<open>d[k]\<close> on such a dict.\<close>

definition dict_lookup :: "py_dict \<Rightarrow> json \<Rightarrow> py_error + json" where
  "dict_lookup d k =
     (case py_key k of
        Inl e \<Rightarrow> Inl e
      | Inr k' \<Rightarrow> (case d k' of None \<Rightarrow> Inl (KeyError k) | Some v \<Rightarrow> Inr v))"

text \<open>\<^verbatim>\<open>row[i]\<close> on a list of strings with a non-negative literal index.\<close>

definition py_index :: "string list \<Rightarrow> nat \<Rightarrow> py_error + string" where
  "py_index row i = (if i < length row then Inr (row ! i) else Inl IndexError)"

text \<open>Decimal digits of a natural number, for \<^verbatim>\<open>str(n)\<close>.\<close>

function dec_digits :: "nat \<Rightarrow> string" where
  "dec_digits n =
     (if n < 10 then [char_of (48 + n)]
      else dec_digits (n div 10) @ [char_of (48 + n mod 10)])"
  by pat_completeness auto
termination
  by (relation "measure id") auto

text \<open>
  \<^verbatim>\<open>'{0}'.format(v)\<close>, that is \<^verbatim>\<open>str(v)\<close>. A string formats as itself, an integer in
  decimal. How a list or a dict prints is left to the parameter \<open>rp\<close> (Python's
  \<^verbatim>\<open>repr\<close>): it depends on the interpreter and is never inspected here.
\<close>

fun py_str :: "(json \<Rightarrow> string) \<Rightarrow> json \<Rightarrow> string" where
  "py_str rp (JStr s) = s"
| "py_str rp (JInt i) = (if i < 0 then CHR ''-'' # dec_digits (nat (- i)) else dec_digits (nat i))"
| "py_str rp (JBool b) = (if b then ''True'' else ''False'')"
| "py_str rp JNull = ''None''"
| "py_str rp v = rp v"

text \<open>\<^verbatim>\<open>bytes.splitlines()\<close>: lines end at \<^verbatim>\<open>\n\<close>, \<^verbatim>\<open>\r\<close> or \<^verbatim>\<open>\r\n\<close>; the
  terminators are dropped and a final terminator opens no further line.\<close>

fun splitlines_acc :: "string \<Rightarrow> string \<Rightarrow> string list" where
  "splitlines_acc cur [] = (if cur = [] then [] else [rev cur])"
| "splitlines_acc cur (c # cs) =
     (if c = CHR 0x0A then rev cur # splitlines_acc [] cs
      else if c = CHR 0x0D then
        (case cs of
           d # ds \<Rightarrow> if d = CHR 0x0A then rev cur # splitlines_acc [] ds
                     else rev cur # splitlines_acc [] cs
         | [] \<Rightarrow> rev cur # splitlines_acc [] cs)
      else splitlines_acc (c # cur) cs)"

text \<open>\<^verbatim>\<open>data.splitlines()\<close> on whatever \<open>download\<close> returned.\<close>

fun py_splitlines :: "json \<Rightarrow> py_error + string list" where
  "py_splitlines (JStr s) = Inr (splitlines_acc [] s)"
| "py_splitlines _ = Inl AttributeError"

section \<open>The plugin's surroundings and state\<close>

datatype verb = GET | POST | PUT | DELETE

text \<open>
  A request as \<open>connect\<close> hands it to the HTTP library: the verb, the URL, the
  \<^verbatim>\<open>X-Cookie\<close> header and the value that \<^verbatim>\<open>json.dumps\<close> serialises (sent as the body,
  or as the query parameters of a GET). The content-type header is constant and the TLS
  flag does not reach the server; both are left out.
\<close>

record request =
  verb :: verb
  url :: string
  cookie :: string
  payload :: json

text \<open>
  What the plugin reads of a response: \<^verbatim>\<open>r.status_code\<close>, \<^verbatim>\<open>r.content\<close>, and
  \<^verbatim>\<open>r.json()\<close>, which is \<open>None\<close> when the body does not parse (the call raises
  \<open>ValueError\<close>).
\<close>

record response =
  status_code :: int
  content :: string
  json_body :: "json option"

record url_record =
  URL :: string

text \<open>The dict \<open>create_issue\<close> builds.\<close>

record issue =
  Severity :: string
  Summary :: string
  Description :: string
  URLs :: "url_record list"
  Ports :: "string list"

text \<open>Everything the plugin does to the outside, in the order it happens.\<close>

datatype event =
    Exchange request response
  | Sleep nat
  | ReportIssue issue
  | ReportFinish

text \<open>
  The surroundings of a run. The remote server answers every request, knowing everything
  that happened before it (earlier requests, and the time slept); a request that gets no
  response at all (the HTTP library raising) is not modelled. \<open>csv_reader\<close> is Python's
  \<^verbatim>\<open>csv.reader\<close> on a list of lines: the rows it yields, an \<open>Inl\<close> where it raises.
  \<open>py_repr\<close> is Python's \<^verbatim>\<open>repr\<close> of lists and dicts.
\<close>

record env =
  server :: "event list \<Rightarrow> request \<Rightarrow> response"
  csv_reader :: "string list \<Rightarrow> (py_error + string list) list"
  py_repr :: "json \<Rightarrow> string"

text \<open>
  The instance: its attributes, the plan's configuration, and what it has done so far
  (\<open>trace\<close>) and written with \<^verbatim>\<open>logger.error\<close> (\<open>errors_logged\<close>). Debug logging is
  not modelled.
\<close>

record plugin =
  server_url :: json
  token :: json
  username :: string
  password :: string
  configuration :: "(string \<times> json) list"
  trace :: "event list"
  errors_logged :: "string list"

text \<open>\<^verbatim>\<open>self.configuration.get(key)\<close>.\<close>

definition config_get :: "plugin \<Rightarrow> string \<Rightarrow> json" where
  "config_get st k = (case map_of (configuration st) k of None \<Rightarrow> JNull | Some v \<Rightarrow> v)"

text \<open>\<^verbatim>\<open>time.sleep(n)\<close>, \<^verbatim>\<open>self.report_issue(i)\<close> and \<^verbatim>\<open>self.report_finish()\<close>.\<close>

definition sleep :: "nat \<Rightarrow> plugin \<Rightarrow> plugin" where
  "sleep n st = st\<lparr>trace := trace st @ [Sleep n]\<rparr>"

definition report_issue :: "issue \<Rightarrow> plugin \<Rightarrow> plugin" where
  "report_issue i st = st\<lparr>trace := trace st @ [ReportIssue i]\<rparr>"

definition report_finish :: "plugin \<Rightarrow> plugin" where
  "report_finish st = st\<lparr>trace := trace st @ [ReportFinish]\<rparr>"

section \<open>Transport\<close>

definition build_url :: "env \<Rightarrow> plugin \<Rightarrow> string \<Rightarrow> string" where
  "build_url env st resource = py_str (py_repr env) (server_url st) @ resource"

text \<open>The verb \<open>connect\<close> ends up using: anything but POST, PUT and DELETE is a GET.\<close>

definition verb_of :: "string \<Rightarrow> verb" where
  "verb_of method =
     (if method = ''POST'' then POST
      else if method = ''PUT'' then PUT
      else if method = ''DELETE'' then DELETE
      else GET)"

text \<open>The request \<open>connect\<close> builds from its arguments and the session token.\<close>

definition request_of :: "env \<Rightarrow> string \<Rightarrow> string \<Rightarrow> json \<Rightarrow> plugin \<Rightarrow> request" where
  "request_of env method resource data st =
     \<lparr>verb = verb_of method,
      url = build_url env st resource,
      cookie = ''token='' @ py_str (py_repr env) (token st),
      payload = data\<rparr>"

text \<open>
  \<open>connect\<close>: send the request; on a status other than 200 decode the body, read its
  \<^verbatim>\<open>error\<close> entry and log it; then return the raw content (download, DELETE) or the
  decoded body. Raw content is returned as the string value \<open>JStr\<close>.
\<close>

definition connect :: "env \<Rightarrow> string \<Rightarrow> string \<Rightarrow> json \<Rightarrow> plugin \<Rightarrow> (py_error + json) \<times> plugin" where
  "connect env method resource data st =
     (let req = request_of env method resource data st;
          r = server env (trace st) req;
          st1 = st\<lparr>trace := trace st @ [Exchange req r]\<rparr>
      in case (if status_code r \<noteq> 200 then
                 (case json_body r of
                    None \<Rightarrow> Inl ValueError
                  | Some e \<Rightarrow>
                      (case py_getitem e ''error'' of
                         Inl err \<Rightarrow> Inl err
                       | Inr msg \<Rightarrow>
                           (case py_concat ''Unexpected response from Nessus'' msg of
                              Inl err \<Rightarrow> Inl err
                            | Inr line \<Rightarrow>
                                Inr (st1\<lparr>errors_logged := errors_logged st1 @ [line]\<rparr>))))
               else Inr st1) of
           Inl err \<Rightarrow> (Inl err, st1)
         | Inr st2 \<Rightarrow>
             if sublist ''download'' resource \<or> method = ''DELETE''
             then (Inr (JStr (content r)), st2)
             else (case json_body r of
                     None \<Rightarrow> (Inl ValueError, st2)
                   | Some v \<Rightarrow> (Inr v, st2)))"

section \<open>Session and scan operations\<close>

definition login :: "env \<Rightarrow> plugin \<Rightarrow> (py_error + json) \<times> plugin" where
  "login env st =
     (case connect env ''POST'' ''/session''
             (JObj [(''username'', JStr (username st)), (''password'', JStr (password st))]) st of
        (Inl e, st1) \<Rightarrow> (Inl e, st1)
      | (Inr data, st1) \<Rightarrow>
          (case py_getitem data ''token'' of
             Inl e \<Rightarrow> (Inl e, st1)
           | Inr t \<Rightarrow> (Inr t, st1\<lparr>token := t\<rparr>)))"

text \<open>
  \<^verbatim>\<open>dict((p[kf], p[vf]) for p in entries)\<close>, started from the dict \<open>d\<close>: the entries
  are read in order, each one stored under its key, so a later entry replaces an earlier
  one with an equal key.
\<close>

fun dict_of_entries :: "string \<Rightarrow> string \<Rightarrow> json list \<Rightarrow> py_dict \<Rightarrow> py_error + py_dict" where
  "dict_of_entries kf vf [] d = Inr d"
| "dict_of_entries kf vf (p # ps) d =
     (case py_getitem p kf of
        Inl e \<Rightarrow> Inl e
      | Inr k \<Rightarrow>
          (case py_getitem p vf of
             Inl e \<Rightarrow> Inl e
           | Inr v \<Rightarrow>
               (case py_key k of
                  Inl e \<Rightarrow> Inl e
                | Inr k' \<Rightarrow> dict_of_entries kf vf ps (d(k' \<mapsto> v)))))"

definition get_policies :: "env \<Rightarrow> plugin \<Rightarrow> (py_error + py_dict) \<times> plugin" where
  "get_policies env st =
     (case connect env ''GET'' ''/editor/policy/templates'' JNull st of
        (Inl e, st1) \<Rightarrow> (Inl e, st1)
      | (Inr data, st1) \<Rightarrow>
          (case py_getitem data ''templates'' of
             Inl e \<Rightarrow> (Inl e, st1)
           | Inr ts \<Rightarrow>
               (case py_iter ts of
                  Inl e \<Rightarrow> (Inl e, st1)
                | Inr ps \<Rightarrow> (dict_of_entries ''title'' ''uuid'' ps Map.empty, st1))))"

definition get_history_ids :: "env \<Rightarrow> json \<Rightarrow> plugin \<Rightarrow> (py_error + py_dict) \<times> plugin" where
  "get_history_ids env sid st =
     (case connect env ''GET'' (''/scans/'' @ py_str (py_repr env) sid) JNull st of
        (Inl e, st1) \<Rightarrow> (Inl e, st1)
      | (Inr data, st1) \<Rightarrow>
          (case py_getitem data ''history'' of
             Inl e \<Rightarrow> (Inl e, st1)
           | Inr hs \<Rightarrow>
               (case py_iter hs of
                  Inl e \<Rightarrow> (Inl e, st1)
                | Inr ps \<Rightarrow> (dict_of_entries ''uuid'' ''history_id'' ps Map.empty, st1))))"

definition get_scan_history :: "env \<Rightarrow> json \<Rightarrow> json \<Rightarrow> plugin \<Rightarrow> (py_error + json) \<times> plugin" where
  "get_scan_history env sid hid st =
     (case connect env ''GET'' (''/scans/'' @ py_str (py_repr env) sid)
             (JObj [(''history_id'', hid)]) st of
        (Inl e, st1) \<Rightarrow> (Inl e, st1)
      | (Inr data, st1) \<Rightarrow> (py_getitem data ''info'', st1))"

definition add :: "env \<Rightarrow> json \<Rightarrow> json \<Rightarrow> json \<Rightarrow> json \<Rightarrow> plugin \<Rightarrow> (py_error + json) \<times> plugin" where
  "add env name desc targets pid st =
     (case connect env ''POST'' ''/scans''
             (JObj [(''uuid'', pid),
                    (''settings'', JObj [(''name'', name),
                                         (''description'', desc),
                                         (''text_targets'', targets)])]) st of
        (Inl e, st1) \<Rightarrow> (Inl e, st1)
      | (Inr data, st1) \<Rightarrow> (py_getitem data ''scan'', st1))"

definition launch :: "env \<Rightarrow> json \<Rightarrow> plugin \<Rightarrow> (py_error + json) \<times> plugin" where
  "launch env sid st =
     (case connect env ''POST'' (''/scans/'' @ py_str (py_repr env) sid @ ''/launch'') JNull st of
        (Inl e, st1) \<Rightarrow> (Inl e, st1)
      | (Inr data, st1) \<Rightarrow> (py_getitem data ''scan_uuid'', st1))"

definition status :: "env \<Rightarrow> json \<Rightarrow> json \<Rightarrow> plugin \<Rightarrow> (py_error + json) \<times> plugin" where
  "status env sid hid st =
     (case get_scan_history env sid hid st of
        (Inl e, st1) \<Rightarrow> (Inl e, st1)
      | (Inr d, st1) \<Rightarrow> (py_getitem d ''status'', st1))"

definition export_status :: "env \<Rightarrow> json \<Rightarrow> json \<Rightarrow> plugin \<Rightarrow> (py_error + bool) \<times> plugin" where
  "export_status env sid fid st =
     (case connect env ''GET''
             (''/scans/'' @ py_str (py_repr env) sid @ ''/export/'' @ py_str (py_repr env) fid
                @ ''/status'') JNull st of
        (Inl e, st1) \<Rightarrow> (Inl e, st1)
      | (Inr data, st1) \<Rightarrow>
          (case py_getitem data ''status'' of
             Inl e \<Rightarrow> (Inl e, st1)
           | Inr s \<Rightarrow> (Inr (s = JStr ''ready''), st1)))"

text \<open>
  The two polling loops have no bound in the source. Here a loop may test its condition
  at most \<open>fuel\<close> times; the result \<open>None\<close> says that it was still polling when the fuel
  ran out, and the state tells what it had done until then.

  \<^verbatim>\<open>while self.export_status(sid, fid) is False: time.sleep(5)\<close>
\<close>

fun wait_ready :: "nat \<Rightarrow> env \<Rightarrow> json \<Rightarrow> json \<Rightarrow> plugin \<Rightarrow> (py_error + unit) option \<times> plugin" where
  "wait_ready 0 env sid fid st = (None, st)"
| "wait_ready (Suc n) env sid fid st =
     (case export_status env sid fid st of
        (Inl e, st1) \<Rightarrow> (Some (Inl e), st1)
      | (Inr ready, st1) \<Rightarrow>
          if ready = False then wait_ready n env sid fid (sleep 5 st1)
          else (Some (Inr ()), st1))"

definition export :: "nat \<Rightarrow> env \<Rightarrow> json \<Rightarrow> json \<Rightarrow> plugin \<Rightarrow> (py_error + json) option \<times> plugin" where
  "export fuel env sid hid st =
     (case connect env ''POST'' (''/scans/'' @ py_str (py_repr env) sid @ ''/export'')
             (JObj [(''history_id'', hid), (''format'', JStr ''csv'')]) st of
        (Inl e, st1) \<Rightarrow> (Some (Inl e), st1)
      | (Inr data, st1) \<Rightarrow>
          (case py_getitem data ''file'' of
             Inl e \<Rightarrow> (Some (Inl e), st1)
           | Inr fid \<Rightarrow>
               (case wait_ready fuel env sid fid st1 of
                  (None, st2) \<Rightarrow> (None, st2)
                | (Some (Inl e), st2) \<Rightarrow> (Some (Inl e), st2)
                | (Some (Inr u), st2) \<Rightarrow> (Some (Inr fid), st2))))"

definition download :: "env \<Rightarrow> json \<Rightarrow> json \<Rightarrow> plugin \<Rightarrow> (py_error + json) \<times> plugin" where
  "download env sid fid st =
     connect env ''GET''
       (''/scans/'' @ py_str (py_repr env) sid @ ''/export/'' @ py_str (py_repr env) fid
          @ ''/download'') JNull st"

definition get_plugin_info :: "env \<Rightarrow> json \<Rightarrow> plugin \<Rightarrow> (py_error + json) \<times> plugin" where
  "get_plugin_info env pid st =
     connect env ''GET'' (''/plugins/plugin/'' @ py_str (py_repr env) pid) JNull st"

section \<open>Result transformer\<close>

definition minion_severity :: "string \<Rightarrow> string" where
  "minion_severity risk = (if risk = ''None'' then ''Info'' else risk)"

text \<open>The loop of \<open>_get_plugin_name\<close>: \<open>name\<close> is overwritten at every matching
  attribute.\<close>

fun plugin_name_loop :: "json list \<Rightarrow> json \<Rightarrow> py_error + json" where
  "plugin_name_loop [] name = Inr name"
| "plugin_name_loop (a # as) name =
     (case py_getitem a ''attribute_name'' of
        Inl e \<Rightarrow> Inl e
      | Inr n \<Rightarrow>
          if n = JStr ''plugin_name'' then
            (case py_getitem a ''attribute_value'' of
               Inl e \<Rightarrow> Inl e
             | Inr v \<Rightarrow> plugin_name_loop as v)
          else plugin_name_loop as name)"

definition get_plugin_name :: "json \<Rightarrow> py_error + json" where
  "get_plugin_name plugin_info =
     (case py_getitem plugin_info ''attributes'' of
        Inl e \<Rightarrow> Inl e
      | Inr attrs \<Rightarrow>
          (case py_iter attrs of
             Inl e \<Rightarrow> Inl e
           | Inr as \<Rightarrow> plugin_name_loop as JNull))"

text \<open>\<^verbatim>\<open>plugin_name + ' ' + row[8] + ' ' + row[9] + ' ' + row[10] + ' ' + row[12]\<close>,
  evaluated left to right.\<close>

definition build_description :: "string list \<Rightarrow> json \<Rightarrow> py_error + string" where
  "build_description row plugin_name =
     (case plugin_name of
        JStr name \<Rightarrow>
          (case py_index row 8 of
             Inl e \<Rightarrow> Inl e
           | Inr r8 \<Rightarrow>
               (case py_index row 9 of
                  Inl e \<Rightarrow> Inl e
                | Inr r9 \<Rightarrow>
                    (case py_index row 10 of
                       Inl e \<Rightarrow> Inl e
                     | Inr r10 \<Rightarrow>
                         (case py_index row 12 of
                            Inl e \<Rightarrow> Inl e
                          | Inr r12 \<Rightarrow>
                              Inr (name @ '' '' @ r8 @ '' '' @ r9 @ '' '' @ r10 @ '' '' @ r12)))))
      | _ \<Rightarrow> Inl TypeError)"

definition create_issue :: "string list \<Rightarrow> json \<Rightarrow> py_error + issue" where
  "create_issue row plugin_info =
     (case get_plugin_name plugin_info of
        Inl e \<Rightarrow> Inl e
      | Inr plugin_name \<Rightarrow>
          (case py_index row 3 of
             Inl e \<Rightarrow> Inl e
           | Inr risk \<Rightarrow>
               (case py_index row 8 of
                  Inl e \<Rightarrow> Inl e
                | Inr synopsis \<Rightarrow>
                    (case build_description row plugin_name of
                       Inl e \<Rightarrow> Inl e
                     | Inr descr \<Rightarrow>
                         (case py_index row 4 of
                            Inl e \<Rightarrow> Inl e
                          | Inr h \<Rightarrow>
                              (case py_index row 6 of
                                 Inl e \<Rightarrow> Inl e
                               | Inr p \<Rightarrow>
                                   Inr \<lparr>Severity = minion_severity risk,
                                        Summary = synopsis,
                                        Description = descr,
                                        URLs = [\<lparr>URL = h @ '':'' @ p\<rparr>],
                                        Ports = [p]\<rparr>))))))"

text \<open>
  The \<^verbatim>\<open>for\<close> loop of \<open>parse_csv_data\<close> over what the CSV reader yields; \<open>plugins\<close> is
  the dict of plugin metadata fetched so far in this pass.
\<close>

fun parse_rows ::
  "env \<Rightarrow> (py_error + string list) list \<Rightarrow> (string \<rightharpoonup> json) \<Rightarrow> plugin \<Rightarrow> (py_error + unit) \<times> plugin"
where
  "parse_rows env [] plugins st = (Inr (), st)"
| "parse_rows env (item # rest) plugins st =
     (case item of
        Inl e \<Rightarrow> (Inl e, st)
      | Inr row \<Rightarrow>
          (case py_index row 0 of
             Inl e \<Rightarrow> (Inl e, st)
           | Inr pid \<Rightarrow>
               if pid = ''Plugin ID'' then parse_rows env rest plugins st
               else
                 (case (if plugins pid = None then
                          (case get_plugin_info env (JStr pid) st of
                             (Inl e, st1) \<Rightarrow> (Inl e, st1)
                           | (Inr info, st1) \<Rightarrow> (Inr (plugins(pid \<mapsto> info)), st1))
                        else (Inr plugins, st)) of
                    (Inl e, st1) \<Rightarrow> (Inl e, st1)
                  | (Inr plugins1, st1) \<Rightarrow>
                      (case plugins1 pid of
                         None \<Rightarrow> (Inl (KeyError (JStr pid)), st1)
                       | Some info \<Rightarrow>
                           (case create_issue row info of
                              Inl e \<Rightarrow> (Inl e, st1)
                            | Inr i \<Rightarrow> parse_rows env rest plugins1 (report_issue i st1))))))"

text \<open>\<open>issues\<close> is created empty, never appended to, and returned.\<close>

definition parse_csv_data :: "env \<Rightarrow> json \<Rightarrow> plugin \<Rightarrow> (py_error + issue list) \<times> plugin" where
  "parse_csv_data env data st =
     (case py_splitlines data of
        Inl e \<Rightarrow> (Inl e, st)
      | Inr rows \<Rightarrow>
          (let issues = [] in
           case parse_rows env (csv_reader env rows) Map.empty st of
             (Inl e, st1) \<Rightarrow> (Inl e, st1)
           | (Inr u, st1) \<Rightarrow> (Inr issues, report_finish st1)))"

section \<open>Scan orchestrator\<close>

text \<open>\<^verbatim>\<open>while self.status(scan_id, history_id) != 'completed': time.sleep(5)\<close>\<close>

fun wait_completed :: "nat \<Rightarrow> env \<Rightarrow> json \<Rightarrow> json \<Rightarrow> plugin \<Rightarrow> (py_error + unit) option \<times> plugin" where
  "wait_completed 0 env sid hid st = (None, st)"
| "wait_completed (Suc n) env sid hid st =
     (case status env sid hid st of
        (Inl e, st1) \<Rightarrow> (Some (Inl e), st1)
      | (Inr s, st1) \<Rightarrow>
          if s \<noteq> JStr ''completed'' then wait_completed n env sid hid (sleep 5 st1)
          else (Some (Inr ()), st1))"

text \<open>\<open>do_run\<close>, each of its two loops allowed \<open>fuel\<close> tests of its condition.\<close>

definition do_run :: "nat \<Rightarrow> env \<Rightarrow> plugin \<Rightarrow> (py_error + unit) option \<times> plugin" where
  "do_run fuel env st =
     (case login env st of
        (Inl e, st1) \<Rightarrow> (Some (Inl e), st1)
      | (Inr tok, st1) \<Rightarrow>
     (case get_policies env st1 of
        (Inl e, st2) \<Rightarrow> (Some (Inl e), st2)
      | (Inr policies, st2) \<Rightarrow>
     (let policy_name = config_get st2 ''policy'';
          target_name = config_get st2 ''target'';
          scan_name = config_get st2 ''scan_name'';
          scan_description = config_get st2 ''scan_description''
      in
     (case dict_lookup policies policy_name of
        Inl e \<Rightarrow> (Some (Inl e), st2)
      | Inr policy_id \<Rightarrow>
     (case add env scan_name scan_description target_name policy_id st2 of
        (Inl e, st3) \<Rightarrow> (Some (Inl e), st3)
      | (Inr scan_data, st3) \<Rightarrow>
     (case py_getitem scan_data ''id'' of
        Inl e \<Rightarrow> (Some (Inl e), st3)
      | Inr scan_id \<Rightarrow>
     (case launch env scan_id st3 of
        (Inl e, st4) \<Rightarrow> (Some (Inl e), st4)
      | (Inr scan_uuid, st4) \<Rightarrow>
     (case get_history_ids env scan_id st4 of
        (Inl e, st5) \<Rightarrow> (Some (Inl e), st5)
      | (Inr history_ids, st5) \<Rightarrow>
     (case dict_lookup history_ids scan_uuid of
        Inl e \<Rightarrow> (Some (Inl e), st5)
      | Inr history_id \<Rightarrow>
     (case wait_completed fuel env scan_id history_id st5 of
        (None, st6) \<Rightarrow> (None, st6)
      | (Some (Inl e), st6) \<Rightarrow> (Some (Inl e), st6)
      | (Some (Inr u), st6) \<Rightarrow>
     (case export fuel env scan_id history_id st6 of
        (None, st7) \<Rightarrow> (None, st7)
      | (Some (Inl e), st7) \<Rightarrow> (Some (Inl e), st7)
      | (Some (Inr file_id), st7) \<Rightarrow>
     (case download env scan_id file_id st7 of
        (Inl e, st8) \<Rightarrow> (Some (Inl e), st8)
      | (Inr data, st8) \<Rightarrow>
     (case parse_csv_data env data st8 of
        (Inl e, st9) \<Rightarrow> (Some (Inl e), st9)
      | (Inr issues, st9) \<Rightarrow> (Some (Inr ()), st9))))))))))))))"

section \<open>Notions used to state the properties\<close>

text \<open>
  \<open>do_run\<close> read in three parts: \<open>start_scan\<close> is its text up to the launch, giving the
  scan id and the run uuid; then the history lookup; \<open>collect_results\<close> is its text from
  the polling loop on. Lemma \<open>do_run_phases\<close> below shows that this reading is \<open>do_run\<close>.
\<close>

definition start_scan :: "env \<Rightarrow> plugin \<Rightarrow> (py_error + json \<times> json) \<times> plugin" where
  "start_scan env st =
     (case login env st of
        (Inl e, st1) \<Rightarrow> (Inl e, st1)
      | (Inr tok, st1) \<Rightarrow>
     (case get_policies env st1 of
        (Inl e, st2) \<Rightarrow> (Inl e, st2)
      | (Inr policies, st2) \<Rightarrow>
     (case dict_lookup policies (config_get st2 ''policy'') of
        Inl e \<Rightarrow> (Inl e, st2)
      | Inr policy_id \<Rightarrow>
     (case add env (config_get st2 ''scan_name'') (config_get st2 ''scan_description'')
             (config_get st2 ''target'') policy_id st2 of
        (Inl e, st3) \<Rightarrow> (Inl e, st3)
      | (Inr scan_data, st3) \<Rightarrow>
     (case py_getitem scan_data ''id'' of
        Inl e \<Rightarrow> (Inl e, st3)
      | Inr scan_id \<Rightarrow>
     (case launch env scan_id st3 of
        (Inl e, st4) \<Rightarrow> (Inl e, st4)
      | (Inr scan_uuid, st4) \<Rightarrow> (Inr (scan_id, scan_uuid), st4)))))))"

definition collect_results ::
  "nat \<Rightarrow> env \<Rightarrow> json \<Rightarrow> json \<Rightarrow> plugin \<Rightarrow> (py_error + unit) option \<times> plugin"
where
  "collect_results fuel env scan_id history_id st =
     (case wait_completed fuel env scan_id history_id st of
        (None, st6) \<Rightarrow> (None, st6)
      | (Some (Inl e), st6) \<Rightarrow> (Some (Inl e), st6)
      | (Some (Inr u), st6) \<Rightarrow>
     (case export fuel env scan_id history_id st6 of
        (None, st7) \<Rightarrow> (None, st7)
      | (Some (Inl e), st7) \<Rightarrow> (Some (Inl e), st7)
      | (Some (Inr file_id), st7) \<Rightarrow>
     (case download env scan_id file_id st7 of
        (Inl e, st8) \<Rightarrow> (Some (Inl e), st8)
      | (Inr data, st8) \<Rightarrow>
     (case parse_csv_data env data st8 of
        (Inl e, st9) \<Rightarrow> (Some (Inl e), st9)
      | (Inr issues, st9) \<Rightarrow> (Some (Inr ()), st9)))))"

text \<open>The key under which \<open>dict_of_entries\<close> stores the entry \<open>p\<close>.\<close>

definition entry_key :: "string \<Rightarrow> json \<Rightarrow> py_error + json" where
  "entry_key kf p = (case py_getitem p kf of Inl e \<Rightarrow> Inl e | Inr k \<Rightarrow> py_key k)"

text \<open>The requests of a trace, and what reached the reporting sink, both in order.\<close>

fun requests :: "event list \<Rightarrow> request list" where
  "requests [] = []"
| "requests (Exchange req r # es) = req # requests es"
| "requests (e # es) = requests es"

fun sink_events :: "event list \<Rightarrow> event list" where
  "sink_events [] = []"
| "sink_events (Exchange req r # es) = sink_events es"
| "sink_events (Sleep n # es) = sink_events es"
| "sink_events (e # es) = e # sink_events es"

text \<open>A header row of the tabular body: its first column is the literal \<^verbatim>\<open>Plugin ID\<close>.\<close>

fun is_header :: "string list \<Rightarrow> bool" where
  "is_header [] = False"
| "is_header (c # cs) = (c = ''Plugin ID'')"

text \<open>The export request: a POST to a URL that ends in \<^verbatim>\<open>/export\<close>.\<close>

fun is_export_request :: "event \<Rightarrow> bool" where
  "is_export_request (Exchange req r) = (verb req = POST \<and> suffix ''/export'' (url req))"
| "is_export_request _ = False"

text \<open>A status poll that returned \<^verbatim>\<open>completed\<close>: a GET carrying a history id whose
  decoded answer has \<^verbatim>\<open>info.status == 'completed'\<close>.\<close>

fun is_completed_poll :: "event \<Rightarrow> bool" where
  "is_completed_poll (Exchange req r) =
     (verb req = GET \<and>
      (case payload req of JObj [(k, hid)] \<Rightarrow> k = ''history_id'' | _ \<Rightarrow> False) \<and>
      (case json_body r of
         None \<Rightarrow> False
       | Some d \<Rightarrow>
           (case py_getitem d ''info'' of
              Inl e \<Rightarrow> False
            | Inr i \<Rightarrow> py_getitem i ''status'' = Inr (JStr ''completed''))))"
| "is_completed_poll _ = False"

text \<open>
  In a trace, every export request comes directly after a status poll that returned
  \<^verbatim>\<open>completed\<close>. \<open>guarded_from prev t\<close> reads \<open>t\<close> with \<open>prev\<close> the event before it.
\<close>

fun guarded_from :: "event option \<Rightarrow> event list \<Rightarrow> bool" where
  "guarded_from prev [] = True"
| "guarded_from prev (e # es) =
     ((if is_export_request e
       then (case prev of None \<Rightarrow> False | Some p \<Rightarrow> is_completed_poll p)
       else True)
      \<and> guarded_from (Some e) es)"

definition export_guarded :: "event list \<Rightarrow> bool" where
  "export_guarded t = guarded_from None t"

section \<open>A concrete run\<close>

text \<open>
  A server that answers the n-th request of a run with the n-th response of a script,
  a CSV reader for bodies without quoting, and an end-to-end run: policy \<^verbatim>\<open>Basic Network Scan\<close>, scan id 42, run \<^verbatim>\<open>run-1\<close> with history
  id 7, export file 9. The catalog lists the policy title twice, the status polls
  answer \<^verbatim>\<open>running\<close>, \<^verbatim>\<open>aborted\<close>, \<^verbatim>\<open>completed\<close>, and the body has a header and two rows
  of the same plugin.
\<close>

definition scripted_server :: "response list \<Rightarrow> event list \<Rightarrow> request \<Rightarrow> response" where
  "scripted_server rs t req =
     (let n = length (requests t)
      in if n < length rs then rs ! n
         else \<lparr>status_code = 500, content = [], json_body = None\<rparr>)"

fun split_commas :: "string \<Rightarrow> string \<Rightarrow> string list" where
  "split_commas cur [] = [rev cur]"
| "split_commas cur (c # cs) =
     (if c = CHR '','' then rev cur # split_commas [] cs else split_commas (c # cur) cs)"

definition plain_csv_reader :: "string list \<Rightarrow> (py_error + string list) list" where
  "plain_csv_reader ls = map (\<lambda>l. Inr (if l = [] then [] else split_commas [] l)) ls"

definition ok_json :: "json \<Rightarrow> response" where
  "ok_json v = \<lparr>status_code = 200, content = [], json_body = Some v\<rparr>"

definition demo_body :: string where
  "demo_body =
     ''Plugin ID,CVE,CVSS,Risk,Host,Protocol,Port,Name,Synopsis,Description,Solution,See Also,Plugin Output''
     @ [CHR 0x0D, CHR 0x0A]
     @ ''10287,,,Low,10.0.1.1,udp,88,Traceroute,syn,desc,sol,see,out''
     @ [CHR 0x0A]
     @ ''10287,,,None,10.0.1.2,udp,0,Traceroute,syn2,desc2,sol2,see2,out2''
     @ [CHR 0x0A]"

definition demo_script :: "string \<Rightarrow> response list" where
  "demo_script run_uuid =
     [ok_json (JObj [(''token'', JStr ''t0k'')]),
      ok_json (JObj [(''templates'',
         JArr [JObj [(''title'', JStr ''Basic Network Scan''), (''uuid'', JStr ''old-000'')],
               JObj [(''title'', JStr ''Advanced Scan''), (''uuid'', JStr ''def-456'')],
               JObj [(''title'', JStr ''Basic Network Scan''), (''uuid'', JStr ''abc-123'')]])]),
      ok_json (JObj [(''scan'', JObj [(''id'', JInt 42)])]),
      ok_json (JObj [(''scan_uuid'', JStr run_uuid)]),
      ok_json (JObj [(''history'',
         JArr [JObj [(''uuid'', JStr ''run-0''), (''history_id'', JInt 6)],
               JObj [(''uuid'', JStr ''run-1''), (''history_id'', JInt 7)]])]),
      ok_json (JObj [(''info'', JObj [(''status'', JStr ''running'')])]),
      ok_json (JObj [(''info'', JObj [(''status'', JStr ''aborted'')])]),
      ok_json (JObj [(''info'', JObj [(''status'', JStr ''completed'')])]),
      ok_json (JObj [(''file'', JInt 9)]),
      ok_json (JObj [(''status'', JStr ''loading'')]),
      ok_json (JObj [(''status'', JStr ''ready'')]),
      \<lparr>status_code = 200, content = demo_body, json_body = None\<rparr>,
      ok_json (JObj [(''attributes'',
         JArr [JObj [(''attribute_name'', JStr ''fname''),
                     (''attribute_value'', JStr ''traceroute.nasl'')],
               JObj [(''attribute_name'', JStr ''plugin_name''),
                     (''attribute_value'', JStr ''Traceroute Information'')]])])]"

definition demo_env :: "response list \<Rightarrow> env" where
  "demo_env script =
     \<lparr>server = scripted_server script, csv_reader = plain_csv_reader, py_repr = (\<lambda>v. [])\<rparr>"

definition demo_plugin :: "string \<Rightarrow> plugin" where
  "demo_plugin policy =
     \<lparr>server_url = JStr ''https://nessus:8834'', token = JStr [],
      username = ''user'', password = ''secret'',
      configuration = [(''policy'', JStr policy), (''target'', JStr ''10.0.0.1''),
                       (''scan_name'', JStr ''nightly''), (''scan_description'', JStr ''d'')],
      trace = [], errors_logged = []\<rparr>"

text \<open>A server whose only answer is the error body of a missing resource.\<close>

definition not_found :: response where
  "not_found =
     \<lparr>status_code = 404, content = ''{\"error\": \"Not found\"}'',
      json_body = Some (JObj [(''error'', JStr ''Not found'')])\<rparr>"

text \<open>The metadata of one plugin and one row of a result body.\<close>

definition demo_info :: json where
  "demo_info =
     JObj [(''attributes'',
        JArr [JObj [(''attribute_name'', JStr ''plugin_name''),
                    (''attribute_value'', JStr ''Traceroute Information'')]])]"

definition demo_row :: "string list" where
  "demo_row = [''10287'', [], [], ''None'', ''10.0.1.1'', ''udp'', ''88'', ''Traceroute'',
               ''syn'', ''desc'', ''sol'', ''see'', ''out'']"

section \<open>Transport and trace lemmas\<close>

lemma connect_trace:
  assumes "connect env m res d st = (r, st')"
  shows "trace st' = trace st @ [Exchange (request_of env m res d st)
                                   (server env (trace st) (request_of env m res d st))]"
  using assms by (auto simp: connect_def Let_def split: if_splits sum.splits option.splits)

lemma connect_frame:
  assumes "connect env m res d st = (r, st')"
  shows "token st' = token st" "server_url st' = server_url st"
    "configuration st' = configuration st" "username st' = username st" "password st' = password st"
  using assms by (auto simp: connect_def Let_def split: if_splits sum.splits option.splits)

lemma connect_obj:
  assumes "connect env m res d st = (Inr v, st')" "py_getitem v k = Inr x"
  shows "json_body (server env (trace st) (request_of env m res d st)) = Some v"
  using assms by (auto simp: connect_def Let_def split: if_splits sum.splits option.splits)

lemma request_of_simps [simp]:
  "verb (request_of env m res d st) = verb_of m"
  "url (request_of env m res d st) = build_url env st res"
  "payload (request_of env m res d st) = d"
  by (simp_all add: request_of_def)

lemma request_of_cong:
  "token st' = token st \<Longrightarrow> server_url st' = server_url st \<Longrightarrow>
   request_of env m res d st' = request_of env m res d st"
  by (simp add: request_of_def build_url_def)

lemma verb_of_simps [simp]: "verb_of ''GET'' = GET" "verb_of ''POST'' = POST"
  by (simp_all add: verb_of_def)

lemma status_trace:
  assumes "status env sid hid st = (r, st')"
  shows "trace st' = trace st @ [Exchange (request_of env ''GET'' (''/scans/'' @ py_str (py_repr env) sid) (JObj [(''history_id'', hid)]) st)
                                   (server env (trace st) (request_of env ''GET'' (''/scans/'' @ py_str (py_repr env) sid) (JObj [(''history_id'', hid)]) st))]"
    and "token st' = token st" and "server_url st' = server_url st"
  using assms
  by (auto simp: status_def get_scan_history_def split: prod.splits sum.splits dest: connect_trace connect_frame)

lemma status_completed:
  assumes "status env sid hid st = (Inr (JStr ''completed''), st')"
  shows "trace st' \<noteq> [] \<and> is_completed_poll (last (trace st'))"
proof -
  let ?res = "''/scans/'' @ py_str (py_repr env) sid"
  let ?req = "request_of env ''GET'' ?res (JObj [(''history_id'', hid)]) st"
  obtain data d where c: "connect env ''GET'' ?res (JObj [(''history_id'', hid)]) st = (Inr data, st')"
    and i: "py_getitem data ''info'' = Inr d"
    and s: "py_getitem d ''status'' = Inr (JStr ''completed'')"
    using assms
    by (auto simp: status_def get_scan_history_def simp del: append.simps
             split: prod.splits sum.splits)
  have t: "trace st' = trace st @ [Exchange ?req (server env (trace st) ?req)]"
    by (rule connect_trace [OF c])
  have j: "json_body (server env (trace st) ?req) = Some data"
    by (rule connect_obj [OF c i])
  show ?thesis
    using t j i s by simp
qed


lemma do_run_phases:
  "do_run fuel env st =
     (case start_scan env st of
        (Inl e, st4) \<Rightarrow> (Some (Inl e), st4)
      | (Inr (scan_id, scan_uuid), st4) \<Rightarrow>
          (case get_history_ids env scan_id st4 of
             (Inl e, st5) \<Rightarrow> (Some (Inl e), st5)
           | (Inr history_ids, st5) \<Rightarrow>
               (case dict_lookup history_ids scan_uuid of
                  Inl e \<Rightarrow> (Some (Inl e), st5)
                | Inr history_id \<Rightarrow> collect_results fuel env scan_id history_id st5)))"
  unfolding do_run_def start_scan_def collect_results_def Let_def
  by (simp split: prod.splits sum.splits option.splits)

lemma suffix_last: "suffix xs ys \<Longrightarrow> xs \<noteq> [] \<Longrightarrow> last ys = last xs"
  by (auto simp: suffix_def)

lemma not_export_url:
  assumes "res \<noteq> []" "last res \<noteq> CHR ''t''"
  shows "\<not> suffix ''/export'' (base @ res)"
proof
  assume "suffix ''/export'' (base @ res)"
  then have "last (base @ res) = last ''/export''"
    by (rule suffix_last) simp
  with assms show False by simp
qed

lemma guarded_from_snoc:
  "guarded_from prev (t @ [e]) \<longleftrightarrow>
     guarded_from prev t \<and>
     (is_export_request e \<longrightarrow>
        (case (if t = [] then prev else Some (last t)) of
           None \<Rightarrow> False | Some p \<Rightarrow> is_completed_poll p))"
  by (induction t arbitrary: prev) auto

lemma export_guarded_snoc:
  "export_guarded (t @ [e]) \<longleftrightarrow>
     export_guarded t \<and> (is_export_request e \<longrightarrow> t \<noteq> [] \<and> is_completed_poll (last t))"
  by (auto simp: export_guarded_def guarded_from_snoc)

lemma export_guarded_append:
  "export_guarded t \<Longrightarrow> \<forall>e\<in>set new. \<not> is_export_request e \<Longrightarrow> export_guarded (t @ new)"
proof (induction new arbitrary: t)
  case Nil
  then show ?case by simp
next
  case (Cons e new)
  have "export_guarded ((t @ [e]) @ new)"
    using Cons.prems by (intro Cons.IH) (auto simp: export_guarded_snoc)
  then show ?case by simp
qed

lemma export_guarded_iff:
  "export_guarded t \<longleftrightarrow>
     (\<forall>pre e post. t = pre @ e # post \<and> is_export_request e \<longrightarrow>
        pre \<noteq> [] \<and> is_completed_poll (last pre))"
proof (induction t rule: rev_induct)
  case Nil
  then show ?case by (simp add: export_guarded_def)
next
  case (snoc x xs)
  have split: "xs @ [x] = pre @ e # post \<longleftrightarrow>
      (post = [] \<and> pre = xs \<and> e = x) \<or> (\<exists>post'. post = post' @ [x] \<and> xs = pre @ e # post')"
    for pre e post
    by (cases post rule: rev_cases) auto
  show ?case
    unfolding export_guarded_snoc snoc.IH split by blast
qed

subsection \<open>What each operation adds to the trace\<close>

lemma connect_events:
  assumes "connect env m res d st = (r, st')"
      and "\<And>req resp. verb req = verb_of m \<Longrightarrow> payload req = d \<Longrightarrow> P (Exchange req resp)"
  shows "\<exists>new. trace st' = trace st @ new \<and> (\<forall>e\<in>set new. P e)"
  using connect_trace [OF assms(1)] assms(2) by simp

lemma status_events:
  assumes "status env sid hid st = (r, st')"
      and "\<And>req resp. verb req = GET \<Longrightarrow> payload req = JObj [(''history_id'', hid)] \<Longrightarrow> P (Exchange req resp)"
  shows "\<exists>new. trace st' = trace st @ new \<and> (\<forall>e\<in>set new. P e)"
  using status_trace(1) [OF assms(1)] assms(2) by simp

lemma wait_completed_events:
  assumes "wait_completed n env sid hid st = (r, st')"
      and "\<And>req resp. verb req = GET \<Longrightarrow> payload req = JObj [(''history_id'', hid)] \<Longrightarrow> P (Exchange req resp)"
      and "P (Sleep 5)"
  shows "\<exists>new. trace st' = trace st @ new \<and> (\<forall>e\<in>set new. P e)"
  using assms(1)
proof (induction n arbitrary: st)
  case 0
  then show ?case by simp
next
  case (Suc n)
  obtain s st1 where s: "status env sid hid st = (s, st1)"
    by (cases "status env sid hid st")
  from status_events [where P = P, OF s assms(2)] obtain new1
    where n1: "trace st1 = trace st @ new1" "\<forall>e\<in>set new1. P e"
    by blast
  show ?case
  proof (cases "\<exists>v. s = Inr v \<and> v \<noteq> JStr ''completed''")
    case True
    then have "wait_completed n env sid hid (sleep 5 st1) = (r, st')"
      using Suc.prems s by auto
    from Suc.IH [OF this] obtain new2
      where "trace st' = trace (sleep 5 st1) @ new2" "\<forall>e\<in>set new2. P e"
      by blast
    then have "trace st' = trace st @ (new1 @ Sleep 5 # new2)" "\<forall>e\<in>set (new1 @ Sleep 5 # new2). P e"
      using n1 assms(3) by (auto simp: sleep_def)
    then show ?thesis by blast
  next
    case False
    then have "st' = st1"
      using Suc.prems s by (cases s) (auto split: if_splits)
    then show ?thesis using n1 by blast
  qed
qed

lemma wait_completed_last:
  assumes "wait_completed n env sid hid st = (Some (Inr u), st')"
  shows "trace st' \<noteq> [] \<and> is_completed_poll (last (trace st'))"
  using assms
proof (induction n arbitrary: st)
  case 0
  then show ?case by simp
next
  case (Suc n)
  obtain s st1 where s: "status env sid hid st = (s, st1)"
    by (cases "status env sid hid st")
  show ?case
  proof (cases "\<exists>v. s = Inr v \<and> v \<noteq> JStr ''completed''")
    case True
    then have "wait_completed n env sid hid (sleep 5 st1) = (Some (Inr u), st')"
      using Suc.prems s by auto
    then show ?thesis by (rule Suc.IH)
  next
    case False
    then have "st' = st1" "s = Inr (JStr ''completed'')"
      using Suc.prems s by (cases s; auto split: if_splits)+
    then show ?thesis using status_completed s by blast
  qed
qed

lemma export_status_events:
  assumes "export_status env sid fid st = (r, st')"
      and "\<And>req resp. verb req = GET \<Longrightarrow> payload req = JNull \<Longrightarrow> P (Exchange req resp)"
  shows "\<exists>new. trace st' = trace st @ new \<and> (\<forall>e\<in>set new. P e)"
proof -
  let ?res = "''/scans/'' @ py_str (py_repr env) sid @ ''/export/'' @ py_str (py_repr env) fid @ ''/status''"
  obtain v where "connect env ''GET'' ?res JNull st = (v, st')"
    using assms(1)
    by (auto simp: export_status_def simp del: append.simps split: prod.splits sum.splits)
  from connect_events [OF this, of P] assms(2) show ?thesis by simp
qed

lemma wait_ready_events:
  assumes "wait_ready n env sid fid st = (r, st')"
      and "\<And>req resp. verb req = GET \<Longrightarrow> payload req = JNull \<Longrightarrow> P (Exchange req resp)"
      and "P (Sleep 5)"
  shows "\<exists>new. trace st' = trace st @ new \<and> (\<forall>e\<in>set new. P e)"
  using assms(1)
proof (induction n arbitrary: st)
  case 0
  then show ?case by simp
next
  case (Suc n)
  obtain s st1 where s: "export_status env sid fid st = (s, st1)"
    by (cases "export_status env sid fid st")
  from export_status_events [where P = P, OF s assms(2)] obtain new1
    where n1: "trace st1 = trace st @ new1" "\<forall>e\<in>set new1. P e"
    by blast
  show ?case
  proof (cases "s = Inr False")
    case True
    then have "wait_ready n env sid fid (sleep 5 st1) = (r, st')"
      using Suc.prems s by auto
    from Suc.IH [OF this] obtain new2
      where "trace st' = trace (sleep 5 st1) @ new2" "\<forall>e\<in>set new2. P e"
      by blast
    then have "trace st' = trace st @ (new1 @ Sleep 5 # new2)" "\<forall>e\<in>set (new1 @ Sleep 5 # new2). P e"
      using n1 assms(3) by (auto simp: sleep_def)
    then show ?thesis by blast
  next
    case False
    then have "st' = st1"
      using Suc.prems s by (cases s) (auto split: if_splits)
    then show ?thesis using n1 by blast
  qed
qed

lemma export_events:
  assumes "export fuel env sid hid st = (r, st')"
      and "\<And>req resp. verb req = GET \<Longrightarrow> payload req = JNull \<Longrightarrow> P (Exchange req resp)"
      and "P (Sleep 5)"
  shows "\<exists>req resp new. trace st' = trace st @ Exchange req resp # new \<and> (\<forall>e\<in>set new. P e)
           \<and> verb req = POST
           \<and> payload req = JObj [(''history_id'', hid), (''format'', JStr ''csv'')]"
proof -
  let ?res = "''/scans/'' @ py_str (py_repr env) sid @ ''/export''"
  let ?d = "JObj [(''history_id'', hid), (''format'', JStr ''csv'')]"
  obtain v st1 where c: "connect env ''POST'' ?res ?d st = (v, st1)"
    by (cases "connect env ''POST'' ?res ?d st")
  have t1: "trace st1 = trace st @ [Exchange (request_of env ''POST'' ?res ?d st)
                                     (server env (trace st) (request_of env ''POST'' ?res ?d st))]"
    by (rule connect_trace [OF c])
  have "\<exists>new. trace st' = trace st1 @ new \<and> (\<forall>e\<in>set new. P e)"
  proof (cases "\<exists>data fid. v = Inr data \<and> py_getitem data ''file'' = Inr fid")
    case True
    then obtain data fid where v: "v = Inr data" "py_getitem data ''file'' = Inr fid"
      by blast
    obtain w where "wait_ready fuel env sid fid st1 = (w, st')"
      using assms(1) c v
      by (auto simp: export_def simp del: append.simps split: prod.splits sum.splits option.splits)
    from wait_ready_events [where P = P, OF this assms(2) assms(3)] show ?thesis .
  next
    case False
    then have "st' = st1"
      using assms(1) c
      by (auto simp: export_def simp del: append.simps split: prod.splits sum.splits option.splits)
    then show ?thesis by simp
  qed
  then show ?thesis
    using t1 by auto
qed

lemma parse_rows_events:
  assumes "parse_rows env items plugins st = (r, st')"
      and "\<And>req resp. verb req = GET \<Longrightarrow> payload req = JNull \<Longrightarrow> P (Exchange req resp)"
      and "\<And>i. P (ReportIssue i)"
  shows "\<exists>new. trace st' = trace st @ new \<and> (\<forall>e\<in>set new. P e)"
  using assms(1)
proof (induction items arbitrary: plugins st)
  case Nil
  then show ?case by simp
next
  case (Cons item rest)
  show ?case
  proof (cases "\<exists>row pid. item = Inr row \<and> py_index row 0 = Inr pid")
    case False
    then have "st' = st"
      using Cons.prems by (auto split: sum.splits)
    then show ?thesis by simp
  next
    case True
    then obtain row pid where row: "item = Inr row" "py_index row 0 = Inr pid"
      by blast
    show ?thesis
    proof (cases "pid = ''Plugin ID''")
      case True
      then have "parse_rows env rest plugins st = (r, st')"
        using Cons.prems row by simp
      then show ?thesis by (rule Cons.IH)
    next
      case header: False
      obtain f st1 where f:
        "(if plugins pid = None then
            (case get_plugin_info env (JStr pid) st of
               (Inl e, st1) \<Rightarrow> (Inl e, st1)
             | (Inr info, st1) \<Rightarrow> (Inr (plugins(pid \<mapsto> info)), st1))
          else (Inr plugins, st)) = (f, st1)"
        by (rule prod.exhaust)
      have "\<exists>new. trace st1 = trace st @ new \<and> (\<forall>e\<in>set new. P e)"
      proof (cases "plugins pid = None")
        case True
        obtain g where "connect env ''GET'' (''/plugins/plugin/'' @ pid) JNull st = (g, st1)"
          using f True
          by (auto simp: get_plugin_info_def simp del: append.simps split: prod.splits sum.splits)
        from connect_events [OF this, of P] assms(2) show ?thesis by simp
      next
        case False
        then have "st1 = st" using f by auto
        then show ?thesis by simp
      qed
      then obtain new1 where n1: "trace st1 = trace st @ new1" "\<forall>e\<in>set new1. P e"
        by blast
      show ?thesis
      proof (cases "\<exists>plugins1 info i. f = Inr plugins1 \<and> plugins1 pid = Some info
                        \<and> create_issue row info = Inr i")
        case False
        then have "st' = st1"
          using Cons.prems row header f
          by (auto split: sum.splits option.splits)
        then show ?thesis using n1 by blast
      next
        case True
        then obtain plugins1 info i where ok: "f = Inr plugins1" "plugins1 pid = Some info"
            "create_issue row info = Inr i"
          by blast
        have "parse_rows env rest plugins1 (report_issue i st1) = (r, st')"
          using Cons.prems row header f ok by simp
        from Cons.IH [OF this] obtain new2
          where "trace st' = trace (report_issue i st1) @ new2" "\<forall>e\<in>set new2. P e"
          by blast
        then have "trace st' = trace st @ (new1 @ ReportIssue i # new2)"
            "\<forall>e\<in>set (new1 @ ReportIssue i # new2). P e"
          using n1 assms(3) by (auto simp: report_issue_def)
        then show ?thesis by blast
      qed
    qed
  qed
qed

lemma parse_csv_data_events:
  assumes "parse_csv_data env data st = (r, st')"
      and "\<And>req resp. verb req = GET \<Longrightarrow> payload req = JNull \<Longrightarrow> P (Exchange req resp)"
      and "\<And>i. P (ReportIssue i)"
      and "P ReportFinish"
  shows "\<exists>new. trace st' = trace st @ new \<and> (\<forall>e\<in>set new. P e)"
proof (cases "py_splitlines data")
  case (Inl e)
  then show ?thesis using assms(1) by (simp add: parse_csv_data_def)
next
  case (Inr rows)
  obtain q st1 where q: "parse_rows env (csv_reader env rows) Map.empty st = (q, st1)"
    by (rule prod.exhaust)
  from parse_rows_events [where P = P, OF q assms(2) assms(3)] obtain new1
    where n1: "trace st1 = trace st @ new1" "\<forall>e\<in>set new1. P e"
    by blast
  show ?thesis
  proof (cases q)
    case (Inl e)
    then show ?thesis using assms(1) Inr q n1 by (auto simp: parse_csv_data_def)
  next
    case u: (Inr u)
    then have "st' = report_finish st1"
      using assms(1) Inr q by (auto simp: parse_csv_data_def)
    then have "trace st' = trace st @ (new1 @ [ReportFinish])" "\<forall>e\<in>set (new1 @ [ReportFinish]). P e"
      using n1 assms(4) by (auto simp: report_finish_def)
    then show ?thesis by blast
  qed
qed

subsection \<open>Export requests are guarded\<close>

lemma connect_quiet:
  assumes "connect env m res d st = (r, st')"
      and "verb_of m \<noteq> POST \<or> (res \<noteq> [] \<and> last res \<noteq> CHR ''t'')"
  shows "\<exists>new. trace st' = trace st @ new \<and> (\<forall>e\<in>set new. \<not> is_export_request e)"
  using connect_trace [OF assms(1)] assms(2) not_export_url [of res]
  by (auto simp: build_url_def)

lemma login_quiet:
  assumes "login env st = (r, st')"
  shows "\<exists>new. trace st' = trace st @ new \<and> (\<forall>e\<in>set new. \<not> is_export_request e)"
proof -
  let ?d = "JObj [(''username'', JStr (username st)), (''password'', JStr (password st))]"
  obtain v st1 where c: "connect env ''POST'' ''/session'' ?d st = (v, st1)"
    by (rule prod.exhaust)
  have "trace st' = trace st1"
    using assms c by (auto simp: login_def split: sum.splits)
  with connect_quiet [OF c] show ?thesis by simp
qed

lemma get_policies_state:
  assumes "get_policies env st = (r, st')"
  shows "\<exists>v. connect env ''GET'' ''/editor/policy/templates'' JNull st = (v, st')"
  using assms by (auto simp: get_policies_def split: prod.splits sum.splits)

lemma get_history_ids_state:
  assumes "get_history_ids env sid st = (r, st')"
  shows "\<exists>v. connect env ''GET'' (''/scans/'' @ py_str (py_repr env) sid) JNull st = (v, st')"
  using assms
  by (auto simp: get_history_ids_def simp del: append.simps split: prod.splits sum.splits)

lemma add_state:
  assumes "add env name desc targets pid st = (r, st')"
  shows "\<exists>v. connect env ''POST'' ''/scans''
             (JObj [(''uuid'', pid),
                    (''settings'', JObj [(''name'', name), (''description'', desc),
                                         (''text_targets'', targets)])]) st = (v, st')"
  using assms by (auto simp: add_def split: prod.splits sum.splits)

lemma launch_state:
  assumes "launch env sid st = (r, st')"
  shows "\<exists>v. connect env ''POST'' (''/scans/'' @ py_str (py_repr env) sid @ ''/launch'') JNull st = (v, st')"
  using assms
  by (auto simp: launch_def simp del: append.simps split: prod.splits sum.splits)

lemma get_policies_quiet:
  assumes "get_policies env st = (r, st')"
  shows "\<exists>new. trace st' = trace st @ new \<and> (\<forall>e\<in>set new. \<not> is_export_request e)"
  using get_policies_state [OF assms] connect_quiet by (auto simp del: append.simps)

lemma get_history_ids_quiet:
  assumes "get_history_ids env sid st = (r, st')"
  shows "\<exists>new. trace st' = trace st @ new \<and> (\<forall>e\<in>set new. \<not> is_export_request e)"
proof -
  from get_history_ids_state [OF assms] obtain v
    where "connect env ''GET'' (''/scans/'' @ py_str (py_repr env) sid) JNull st = (v, st')" ..
  from connect_quiet [OF this] show ?thesis by simp
qed

lemma add_quiet:
  assumes "add env name desc targets pid st = (r, st')"
  shows "\<exists>new. trace st' = trace st @ new \<and> (\<forall>e\<in>set new. \<not> is_export_request e)"
proof -
  from add_state [OF assms] obtain v
    where "connect env ''POST'' ''/scans''
             (JObj [(''uuid'', pid),
                    (''settings'', JObj [(''name'', name), (''description'', desc),
                                         (''text_targets'', targets)])]) st = (v, st')" ..
  from connect_quiet [OF this] show ?thesis by simp
qed

lemma launch_quiet:
  assumes "launch env sid st = (r, st')"
  shows "\<exists>new. trace st' = trace st @ new \<and> (\<forall>e\<in>set new. \<not> is_export_request e)"
proof -
  from launch_state [OF assms] obtain v
    where "connect env ''POST'' (''/scans/'' @ py_str (py_repr env) sid @ ''/launch'') JNull st = (v, st')" ..
  from connect_quiet [OF this] show ?thesis by simp
qed

lemma quiet_trans:
  assumes "\<exists>new. trace st1 = trace st @ new \<and> (\<forall>e\<in>set new. P e)"
      and "\<exists>new. trace st2 = trace st1 @ new \<and> (\<forall>e\<in>set new. P e)"
  shows "\<exists>new. trace st2 = trace st @ new \<and> (\<forall>e\<in>set new. P e)"
proof -
  from assms obtain n1 n2 where "trace st1 = trace st @ n1" "\<forall>e\<in>set n1. P e"
      "trace st2 = trace st1 @ n2" "\<forall>e\<in>set n2. P e"
    by blast
  then have "trace st2 = trace st @ (n1 @ n2) \<and> (\<forall>e\<in>set (n1 @ n2). P e)"
    by auto
  then show ?thesis ..
qed

lemma start_scan_quiet:
  assumes "start_scan env st = (r, st')"
  shows "\<exists>new. trace st' = trace st @ new \<and> (\<forall>e\<in>set new. \<not> is_export_request e)"
proof -
  obtain a st1 where a: "login env st = (a, st1)" by (rule prod.exhaust)
  note q1 = login_quiet [OF a]
  show ?thesis
  proof (cases a)
    case (Inl e)
    then show ?thesis using assms a q1 by (simp add: start_scan_def)
  next
    case tok: (Inr tok)
    obtain b st2 where b: "get_policies env st1 = (b, st2)" by (rule prod.exhaust)
    note q2 = quiet_trans [OF q1 get_policies_quiet [OF b]]
    show ?thesis
    proof (cases "\<exists>policies pid. b = Inr policies \<and> dict_lookup policies (config_get st2 ''policy'') = Inr pid")
      case False
      then have "st' = st2"
        using assms a tok b by (auto simp: start_scan_def split: sum.splits)
      then show ?thesis using q2 by simp
    next
      case True
      then obtain policies pid where p: "b = Inr policies"
          "dict_lookup policies (config_get st2 ''policy'') = Inr pid"
        by blast
      obtain c st3 where c: "add env (config_get st2 ''scan_name'') (config_get st2 ''scan_description'')
             (config_get st2 ''target'') pid st2 = (c, st3)" by (rule prod.exhaust)
      note q3 = quiet_trans [OF q2 add_quiet [OF c]]
      show ?thesis
      proof (cases "\<exists>scan_data sid. c = Inr scan_data \<and> py_getitem scan_data ''id'' = Inr sid")
        case False
        then have "st' = st3"
          using assms a tok b p c by (auto simp: start_scan_def split: sum.splits)
        then show ?thesis using q3 by simp
      next
        case True
        then obtain scan_data sid where s: "c = Inr scan_data" "py_getitem scan_data ''id'' = Inr sid"
          by blast
        obtain d st4 where d: "launch env sid st3 = (d, st4)" by (rule prod.exhaust)
        note q4 = quiet_trans [OF q3 launch_quiet [OF d]]
        have "st' = st4"
          using assms a tok b p c s d by (auto simp: start_scan_def split: sum.splits)
        then show ?thesis using q4 by simp
      qed
    qed
  qed
qed

lemma collect_results_guarded:
  assumes "collect_results fuel env sid hid st = (r, st')"
      and "export_guarded (trace st)"
  shows "export_guarded (trace st')"
proof -
  have get: "\<not> is_export_request (Exchange req resp)" if "verb req = GET" for req resp
    using that by simp
  obtain w st6 where w: "wait_completed fuel env sid hid st = (w, st6)" by (rule prod.exhaust)
  from wait_completed_events [where P = "\<lambda>e. \<not> is_export_request e", OF w]
  have g6: "export_guarded (trace st6)"
    using assms(2) export_guarded_append by auto
  show ?thesis
  proof (cases "\<exists>u. w = Some (Inr u)")
    case False
    then have "st' = st6"
      using assms(1) w by (auto simp: collect_results_def split: option.splits sum.splits)
    then show ?thesis using g6 by simp
  next
    case True
    then obtain u where u: "w = Some (Inr u)" by blast
    have last6: "trace st6 \<noteq> [] \<and> is_completed_poll (last (trace st6))"
      using wait_completed_last w u by blast
    obtain x st7 where x: "export fuel env sid hid st6 = (x, st7)" by (rule prod.exhaust)
    from export_events [where P = "\<lambda>e. \<not> is_export_request e", OF x]
    obtain req resp new where n: "trace st7 = (trace st6 @ [Exchange req resp]) @ new"
        "\<forall>e\<in>set new. \<not> is_export_request e"
      by auto
    have "export_guarded (trace st6 @ [Exchange req resp])"
      using g6 last6 by (simp add: export_guarded_snoc)
    then have g7: "export_guarded (trace st7)"
      unfolding n(1) using n(2) by (rule export_guarded_append)
    show ?thesis
    proof (cases "\<exists>fid. x = Some (Inr fid)")
      case False
      then have "st' = st7"
        using assms(1) w u x by (auto simp: collect_results_def split: option.splits sum.splits)
      then show ?thesis using g7 by simp
    next
      case True
      then obtain fid where fid: "x = Some (Inr fid)" by blast
      obtain y st8 where y: "download env sid fid st7 = (y, st8)" by (rule prod.exhaust)
      from connect_events [where P = "\<lambda>e. \<not> is_export_request e", OF y [unfolded download_def]]
      have g8: "export_guarded (trace st8)"
        using g7 export_guarded_append by auto
      show ?thesis
      proof (cases y)
        case (Inl e)
        then have "st' = st8"
          using assms(1) w u x fid y by (auto simp: collect_results_def)
        then show ?thesis using g8 by simp
      next
        case (Inr data)
        obtain z st9 where z: "parse_csv_data env data st8 = (z, st9)" by (rule prod.exhaust)
        from parse_csv_data_events [where P = "\<lambda>e. \<not> is_export_request e", OF z]
        have g9: "export_guarded (trace st9)"
          using g8 export_guarded_append by auto
        have "st' = st9"
          using assms(1) w u x fid y Inr z by (auto simp: collect_results_def split: sum.splits)
        then show ?thesis using g9 by simp
      qed
    qed
  qed
qed

lemma do_run_guarded:
  assumes "do_run fuel env st = (r, st')"
      and "export_guarded (trace st)"
  shows "export_guarded (trace st')"
proof -
  obtain a st4 where a: "start_scan env st = (a, st4)" by (rule prod.exhaust)
  from start_scan_quiet [OF a] have g4: "export_guarded (trace st4)"
    using assms(2) export_guarded_append by auto
  show ?thesis
  proof (cases a)
    case (Inl e)
    then show ?thesis using assms(1) a g4 by (simp add: do_run_phases)
  next
    case (Inr p)
    obtain sid uuid where p: "p = (sid, uuid)" by (rule prod.exhaust)
    obtain b st5 where b: "get_history_ids env sid st4 = (b, st5)" by (rule prod.exhaust)
    from get_history_ids_quiet [OF b] have g5: "export_guarded (trace st5)"
      using g4 export_guarded_append by auto
    show ?thesis
    proof (cases "\<exists>hids hid. b = Inr hids \<and> dict_lookup hids uuid = Inr hid")
      case False
      then have "st' = st5"
        using assms(1) a Inr p b by (auto simp: do_run_phases split: sum.splits)
      then show ?thesis using g5 by simp
    next
      case True
      then obtain hids hid where h: "b = Inr hids" "dict_lookup hids uuid = Inr hid"
        by blast
      have "collect_results fuel env sid hid st5 = (r, st')"
        using assms(1) a Inr p b h by (simp add: do_run_phases)
      then show ?thesis using g5 by (rule collect_results_guarded)
    qed
  qed
qed

subsection \<open>The trace of a whole run\<close>

lemma collect_results_events:
  assumes "collect_results fuel env sid hid st = (r, st')"
      and poll: "\<And>req resp. verb req = GET \<Longrightarrow> payload req = JObj [(''history_id'', hid)] \<Longrightarrow> P (Exchange req resp)"
      and get: "\<And>req resp. verb req = GET \<Longrightarrow> payload req = JNull \<Longrightarrow> P (Exchange req resp)"
      and exp: "\<And>req resp. verb req = POST \<Longrightarrow>
                  payload req = JObj [(''history_id'', hid), (''format'', JStr ''csv'')] \<Longrightarrow> P (Exchange req resp)"
      and "P (Sleep 5)" and "\<And>i. P (ReportIssue i)" and "P ReportFinish"
  shows "\<exists>new. trace st' = trace st @ new \<and> (\<forall>e\<in>set new. P e)"
proof -
  obtain w st6 where w: "wait_completed fuel env sid hid st = (w, st6)" by (rule prod.exhaust)
  note q6 = wait_completed_events [where P = P, OF w poll assms(5)]
  show ?thesis
  proof (cases "\<exists>u. w = Some (Inr u)")
    case False
    then have "st' = st6"
      using assms(1) w by (auto simp: collect_results_def split: option.splits sum.splits)
    then show ?thesis using q6 by simp
  next
    case True
    then obtain u where u: "w = Some (Inr u)" by blast
    obtain x st7 where x: "export fuel env sid hid st6 = (x, st7)" by (rule prod.exhaust)
    from export_events [where P = P, OF x get assms(5)]
    obtain req resp new where n: "trace st7 = trace st6 @ Exchange req resp # new"
        "\<forall>e\<in>set new. P e" "verb req = POST"
        "payload req = JObj [(''history_id'', hid), (''format'', JStr ''csv'')]"
      by blast
    have "trace st7 = trace st6 @ (Exchange req resp # new) \<and> (\<forall>e\<in>set (Exchange req resp # new). P e)"
      using n(1,2) exp [OF n(3,4)] by simp
    then have "\<exists>new. trace st7 = trace st6 @ new \<and> (\<forall>e\<in>set new. P e)"
      by (rule exI)
    note q7 = quiet_trans [OF q6 this]
    show ?thesis
    proof (cases "\<exists>fid. x = Some (Inr fid)")
      case False
      then have "st' = st7"
        using assms(1) w u x by (auto simp: collect_results_def split: option.splits sum.splits)
      then show ?thesis using q7 by simp
    next
      case True
      then obtain fid where fid: "x = Some (Inr fid)" by blast
      obtain y st8 where y: "download env sid fid st7 = (y, st8)" by (rule prod.exhaust)
      have "\<exists>new. trace st8 = trace st7 @ new \<and> (\<forall>e\<in>set new. P e)"
        using connect_events [where P = P, OF y [unfolded download_def]] get by simp
      note q8 = quiet_trans [OF q7 this]
      show ?thesis
      proof (cases y)
        case (Inl e)
        then have "st' = st8"
          using assms(1) w u x fid y by (auto simp: collect_results_def)
        then show ?thesis using q8 by simp
      next
        case (Inr data)
        obtain z st9 where z: "parse_csv_data env data st8 = (z, st9)" by (rule prod.exhaust)
        have "\<exists>new. trace st9 = trace st8 @ new \<and> (\<forall>e\<in>set new. P e)"
          using z get assms(6) assms(7) by (rule parse_csv_data_events [where P = P])
        note q9 = quiet_trans [OF q8 this]
        have "st' = st9"
          using assms(1) w u x fid y Inr z by (auto simp: collect_results_def split: sum.splits)
        then show ?thesis using q9 by simp
      qed
    qed
  qed
qed

lemma login_frame:
  assumes "login env st = (r, st')"
  shows "configuration st' = configuration st" "server_url st' = server_url st"
proof -
  let ?d = "JObj [(''username'', JStr (username st)), (''password'', JStr (password st))]"
  obtain v st1 where c: "connect env ''POST'' ''/session'' ?d st = (v, st1)"
    by (rule prod.exhaust)
  have "configuration st' = configuration st1" "server_url st' = server_url st1"
    using assms c by (auto simp: login_def split: sum.splits)
  with connect_frame [OF c] show "configuration st' = configuration st" "server_url st' = server_url st"
    by simp_all
qed

lemma login_trace:
  assumes "login env st = (r, st')"
  shows "trace st' = trace st @
           [Exchange (request_of env ''POST'' ''/session''
                        (JObj [(''username'', JStr (username st)), (''password'', JStr (password st))]) st)
                     (server env (trace st) (request_of env ''POST'' ''/session''
                        (JObj [(''username'', JStr (username st)), (''password'', JStr (password st))]) st))]"
proof -
  let ?d = "JObj [(''username'', JStr (username st)), (''password'', JStr (password st))]"
  obtain v st1 where c: "connect env ''POST'' ''/session'' ?d st = (v, st1)"
    by (rule prod.exhaust)
  have "trace st' = trace st1"
    using assms c by (auto simp: login_def split: sum.splits)
  with connect_trace [OF c] show ?thesis by simp
qed

lemma do_run_after_launch:
  assumes "start_scan env st = (a, st4)"
  shows "\<exists>new. trace (snd (do_run fuel env st)) = trace st4 @ new"
proof (cases a)
  case (Inl e)
  then show ?thesis using assms by (simp add: do_run_phases)
next
  case (Inr p)
  obtain sid uuid where p: "p = (sid, uuid)" by (rule prod.exhaust)
  obtain b st5 where b: "get_history_ids env sid st4 = (b, st5)" by (rule prod.exhaust)
  from get_history_ids_quiet [OF b] obtain n5 where n5: "trace st5 = trace st4 @ n5"
    by blast
  show ?thesis
  proof (cases "\<exists>hids hid. b = Inr hids \<and> dict_lookup hids uuid = Inr hid")
    case False
    then have "snd (do_run fuel env st) = st5"
      using assms Inr p b by (auto simp: do_run_phases split: sum.splits)
    then show ?thesis using n5 by simp
  next
    case True
    then obtain hids hid where h: "b = Inr hids" "dict_lookup hids uuid = Inr hid"
      by blast
    have "collect_results fuel env sid hid st5
          = (fst (do_run fuel env st), snd (do_run fuel env st))"
      using assms Inr p b h by (simp add: do_run_phases)
    from collect_results_events [where P = "\<lambda>e. True", OF this]
    obtain n where "trace (snd (do_run fuel env st)) = trace st5 @ n"
      by auto
    then show ?thesis using n5 by simp
  qed
qed

section \<open>Claims about single operations\<close>

text \<open>
  C1, as amended. For a request answered with a status other than 200, \<open>connect\<close> raises
  nothing of its own. When the body decodes to a dict whose \<^verbatim>\<open>error\<close> entry is a string,
  it appends \<^verbatim>\<open>Unexpected response from Nessus\<close> followed by that message to the error
  log and returns to its caller what it returns for a successful response: the raw
  content for a download or a DELETE, the decoded body otherwise. When the body does not
  decode, the decoding error (\<open>ValueError\<close>) reaches the caller and nothing is logged:
  there is no generic message. In each case exactly the one request was sent.
\<close>

theorem connect_logs_and_returns:
  assumes "r = server env (trace st) (request_of env method resource data st)"
      and "status_code r \<noteq> 200"
      and "connect env method resource data st = (res, st')"
  shows "(\<forall>e m. json_body r = Some e \<and> py_getitem e ''error'' = Inr (JStr m) \<longrightarrow>
            res = (if sublist ''download'' resource \<or> method = ''DELETE''
                   then Inr (JStr (content r)) else Inr e)
            \<and> errors_logged st' = errors_logged st @ [''Unexpected response from Nessus'' @ m])
       \<and> (json_body r = None \<longrightarrow> res = Inl ValueError \<and> errors_logged st' = errors_logged st)
       \<and> trace st' = trace st @ [Exchange (request_of env method resource data st) r]"
  using assms by (auto simp: connect_def Let_def split: if_splits sum.splits option.splits)

theorem connect_logs_and_returns_witness:
  "status_code not_found \<noteq> 200
   \<and> fst (connect (demo_env [not_found]) ''GET'' ''/scans/42/export/9/download'' JNull (demo_plugin ''p''))
       = Inr (JStr ''{\"error\": \"Not found\"}'')
   \<and> errors_logged (snd (connect (demo_env [not_found]) ''GET'' ''/scans/42/export/9/download'' JNull
         (demo_plugin ''p''))) = [''Unexpected response from NessusNot found'']"
proof -
  let ?env = "demo_env [not_found]" and ?st = "demo_plugin ''p''"
  let ?res = "''/scans/42/export/9/download''"
  have r: "not_found = server ?env (trace ?st) (request_of ?env ''GET'' ?res JNull ?st)"
    by (simp add: demo_env_def demo_plugin_def scripted_server_def)
  have s: "status_code not_found \<noteq> 200"
    by (simp add: not_found_def)
  have c: "connect ?env ''GET'' ?res JNull ?st
           = (fst (connect ?env ''GET'' ?res JNull ?st), snd (connect ?env ''GET'' ?res JNull ?st))"
    by simp
  have d: "sublist ''download'' ?res"
    by (simp add: sublist_code prefix_code)
  have j: "json_body not_found = Some (JObj [(''error'', JStr ''Not found'')])"
          "content not_found = ''{\"error\": \"Not found\"}''"
    by (simp_all add: not_found_def)
  show ?thesis
    using connect_logs_and_returns [OF r s c] d j s
    by (simp add: demo_plugin_def)
qed

text \<open>
  C1 as stated fails: answered with status 404 and the body \<^verbatim>\<open>{"error": "Not found"}\<close>,
  \<open>connect\<close> returns that body to its caller as an ordinary result. And the caller goes
  on: when the download of a run is answered so, \<open>do_run\<close> hands the error body to the
  transform, which sends a further request, for the metadata of a plugin named by that
  body.
\<close>

theorem connect_returns_error_body:
  "status_code (server (demo_env [not_found]) []
      (request_of (demo_env [not_found]) ''GET'' ''/scans/42'' JNull (demo_plugin ''p''))) = 404
   \<and> fst (connect (demo_env [not_found]) ''GET'' ''/scans/42'' JNull (demo_plugin ''p''))
       = Inr (JObj [(''error'', JStr ''Not found'')])
   \<and> map url (drop 11 (requests (trace (snd (do_run 5
            (demo_env (take 11 (demo_script ''run-1'') @ [not_found]))
            (demo_plugin ''Basic Network Scan''))))))
       = [''https://nessus:8834/scans/42/export/9/download'',
          ''https://nessus:8834/plugins/plugin/{\"error\": \"Not found\"}'']"
  by code_simp

text \<open>
  C3. Whenever \<open>create_issue\<close> produces an Issue from a row, its severity is
  \<^verbatim>\<open>Info\<close> if the row's risk field (column 3) is exactly \<^verbatim>\<open>None\<close>, and is the risk
  field itself for every other value.
\<close>

theorem severity_of_issue:
  assumes "create_issue row plugin_info = Inr i"
  shows "3 < length row \<and> Severity i = minion_severity (row ! 3)
       \<and> (row ! 3 = ''None'' \<longrightarrow> Severity i = ''Info'')
       \<and> (row ! 3 \<noteq> ''None'' \<longrightarrow> Severity i = row ! 3)"
  using assms
  by (auto simp: create_issue_def py_index_def minion_severity_def split: sum.splits if_splits)

theorem severity_of_issue_witness:
  "(\<exists>i. create_issue demo_row demo_info = Inr i \<and> Severity i = ''Info'')
   \<and> (\<exists>i. create_issue (demo_row[3 := ''Low'']) demo_info = Inr i \<and> Severity i = ''Low'')"
proof -
  obtain i where i: "create_issue demo_row demo_info = Inr i"
    by (simp add: create_issue_def demo_row_def demo_info_def get_plugin_name_def py_index_def
          build_description_def)
  obtain j where j: "create_issue (demo_row[3 := ''Low'']) demo_info = Inr j"
    by (simp add: create_issue_def demo_row_def demo_info_def get_plugin_name_def py_index_def
          build_description_def)
  show ?thesis
    using severity_of_issue [OF i] severity_of_issue [OF j] i j
    by (simp add: demo_row_def minion_severity_def)
qed



text \<open>
  C10. Whenever \<open>parse_csv_data\<close> returns, it returns the empty list, whatever it
  reported to the sink.
\<close>

theorem parse_csv_data_returns_empty:
  assumes "parse_csv_data env data st = (Inr issues, st')"
  shows "issues = []"
  using assms
  by (auto simp: parse_csv_data_def split: sum.splits prod.splits)

theorem parse_csv_data_returns_empty_witness:
  "fst (parse_csv_data (demo_env (drop 12 (demo_script ''run-1''))) (JStr demo_body) (demo_plugin ''p''))
     = Inr []
   \<and> length (sink_events (trace (snd (parse_csv_data (demo_env (drop 12 (demo_script ''run-1'')))
         (JStr demo_body) (demo_plugin ''p''))))) = 3"
proof -
  let ?run = "parse_csv_data (demo_env (drop 12 (demo_script ''run-1''))) (JStr demo_body)
                (demo_plugin ''p'')"
  have "\<not> isl (fst ?run)"
    by code_simp
  then obtain issues where f: "fst ?run = Inr issues"
    by (cases "fst ?run") auto
  have n: "length (sink_events (trace (snd ?run))) = 3"
    by code_simp
  have "?run = (Inr issues, snd ?run)"
    using f by (simp add: prod_eq_iff)
  from parse_csv_data_returns_empty [OF this] f n show ?thesis
    by simp
qed

section \<open>Claims about the orchestrator\<close>

text \<open>
  C2. While polling, any status other than \<^verbatim>\<open>completed\<close> (so also \<^verbatim>\<open>aborted\<close> and
  \<^verbatim>\<open>canceled\<close>) is no failure: the loop sleeps 5 seconds and polls again. The loop is left
  normally only directly after a poll that returned \<^verbatim>\<open>completed\<close>. And in whatever
  \<open>do_run\<close> has done, however long it was allowed to poll, every export request comes
  directly after a status poll that returned \<^verbatim>\<open>completed\<close>.
\<close>

theorem export_only_after_completed:
  "(status env sid hid st = (Inr s, st') \<and> s \<noteq> JStr ''completed'' \<longrightarrow>
      wait_completed (Suc n) env sid hid st = wait_completed n env sid hid (sleep 5 st')
      \<and> trace (sleep 5 st') = trace st' @ [Sleep 5])
   \<and> (wait_completed m env sid hid st = (Some (Inr u), st'') \<longrightarrow>
      trace st'' \<noteq> [] \<and> is_completed_poll (last (trace st'')))
   \<and> (export_guarded (trace start) \<longrightarrow> export_guarded (trace (snd (do_run fuel env start))))"
proof (intro conjI impI)
  assume "status env sid hid st = (Inr s, st') \<and> s \<noteq> JStr ''completed''"
  then show "wait_completed (Suc n) env sid hid st = wait_completed n env sid hid (sleep 5 st')"
    by simp
next
  show "trace (sleep 5 st') = trace st' @ [Sleep 5]"
    by (simp add: sleep_def)
next
  assume "wait_completed m env sid hid st = (Some (Inr u), st'')"
  then show "trace st'' \<noteq> []" "is_completed_poll (last (trace st''))"
    using wait_completed_last by blast+
next
  assume "export_guarded (trace start)"
  with do_run_guarded [of fuel env start "fst (do_run fuel env start)" "snd (do_run fuel env start)"]
  show "export_guarded (trace (snd (do_run fuel env start)))"
    by simp
qed

theorem export_only_after_completed_witness:
  "fst (status (demo_env (drop 6 (demo_script ''run-1''))) (JInt 42) (JInt 7) (demo_plugin ''p''))
     = Inr (JStr ''aborted'')
   \<and> wait_completed 2 (demo_env (drop 6 (demo_script ''run-1''))) (JInt 42) (JInt 7) (demo_plugin ''p'')
     = wait_completed 1 (demo_env (drop 6 (demo_script ''run-1''))) (JInt 42) (JInt 7)
         (sleep 5 (snd (status (demo_env (drop 6 (demo_script ''run-1''))) (JInt 42) (JInt 7)
            (demo_plugin ''p''))))
   \<and> fst (wait_completed 2 (demo_env (drop 6 (demo_script ''run-1''))) (JInt 42) (JInt 7)
            (demo_plugin ''p'')) = Some (Inr ())
   \<and> is_completed_poll (last (trace (snd (wait_completed 2 (demo_env (drop 6 (demo_script ''run-1'')))
            (JInt 42) (JInt 7) (demo_plugin ''p'')))))
   \<and> export_guarded (trace (demo_plugin ''Basic Network Scan''))
   \<and> export_guarded (trace (snd (do_run 5 (demo_env (demo_script ''run-1''))
            (demo_plugin ''Basic Network Scan''))))
   \<and> list_ex is_export_request (trace (snd (do_run 5 (demo_env (demo_script ''run-1''))
            (demo_plugin ''Basic Network Scan''))))"
proof -
  let ?env = "demo_env (drop 6 (demo_script ''run-1''))" and ?st = "demo_plugin ''p''"
  let ?run = "do_run 5 (demo_env (demo_script ''run-1'')) (demo_plugin ''Basic Network Scan'')"
  have s: "fst (status ?env (JInt 42) (JInt 7) ?st) = Inr (JStr ''aborted'')"
    by code_simp
  have w: "fst (wait_completed 2 ?env (JInt 42) (JInt 7) ?st) = Some (Inr ())"
    by code_simp
  have g: "export_guarded (trace (demo_plugin ''Basic Network Scan''))"
    by (simp add: demo_plugin_def export_guarded_def)
  have x: "list_ex is_export_request (trace (snd ?run))"
    by code_simp
  have s': "status ?env (JInt 42) (JInt 7) ?st
            = (Inr (JStr ''aborted''), snd (status ?env (JInt 42) (JInt 7) ?st))"
    using s by (simp add: prod_eq_iff)
  have w': "wait_completed 2 ?env (JInt 42) (JInt 7) ?st
            = (Some (Inr ()), snd (wait_completed 2 ?env (JInt 42) (JInt 7) ?st))"
    using w by (simp add: prod_eq_iff)
  note t = export_only_after_completed [of ?env "JInt 42" "JInt 7" ?st "JStr ''aborted''"
      "snd (status ?env (JInt 42) (JInt 7) ?st)" 1 2 "()"
      "snd (wait_completed 2 ?env (JInt 42) (JInt 7) ?st)"]
  have a: "wait_completed 2 ?env (JInt 42) (JInt 7) ?st
           = wait_completed 1 ?env (JInt 42) (JInt 7)
               (sleep 5 (snd (status ?env (JInt 42) (JInt 7) ?st)))"
    using t s' by (simp only: numeral_2_eq_2 One_nat_def) simp
  have b: "is_completed_poll (last (trace (snd (wait_completed 2 ?env (JInt 42) (JInt 7) ?st))))"
    using t w' by blast
  have c: "export_guarded (trace (snd ?run))"
    using export_only_after_completed [where start = "demo_plugin ''Basic Network Scan''"
        and fuel = 5 and env = "demo_env (demo_script ''run-1'')"] g
    by blast
  show ?thesis
    using s a w b g c x by blast
qed

section \<open>Claims about the lookups\<close>

subsection \<open>Dicts built from a listing\<close>

lemma dict_of_entries_absent:
  assumes "dict_of_entries kf vf ps d = Inr d'"
      and "\<forall>p\<in>set ps. entry_key kf p \<noteq> Inr k"
  shows "d' k = d k"
  using assms
proof (induction ps arbitrary: d)
  case Nil
  then show ?case by simp
next
  case (Cons p ps)
  from Cons.prems(1) obtain k' v where p: "entry_key kf p = Inr k'" "py_getitem p vf = Inr v"
      and rest: "dict_of_entries kf vf ps (d(k' \<mapsto> v)) = Inr d'"
    by (auto simp: entry_key_def split: sum.splits)
  have "k' \<noteq> k" using Cons.prems(2) p by auto
  moreover have "d' k = (d(k' \<mapsto> v)) k"
  proof (rule Cons.IH [OF rest])
    show "\<forall>p\<in>set ps. entry_key kf p \<noteq> Inr k"
      using Cons.prems(2) by simp
  qed
  ultimately show ?case by simp
qed

lemma dict_of_entries_last:
  assumes "dict_of_entries kf vf (pre @ p # post) d = Inr d'"
      and "entry_key kf p = Inr k" "py_getitem p vf = Inr v"
      and "\<forall>q\<in>set post. entry_key kf q \<noteq> Inr k"
  shows "d' k = Some v"
  using assms(1)
proof (induction pre arbitrary: d)
  case Nil
  then have "dict_of_entries kf vf post (d(k \<mapsto> v)) = Inr d'"
    using assms(2,3) by (auto simp: entry_key_def split: sum.splits)
  from dict_of_entries_absent [OF this assms(4)] show ?case by simp
next
  case (Cons q pre)
  then show ?case by (auto split: sum.splits)
qed

lemma dict_of_entries_keys:
  assumes "dict_of_entries kf vf ps d = Inr d'" "p \<in> set ps"
  shows "\<exists>k v. entry_key kf p = Inr k \<and> py_getitem p vf = Inr v"
  using assms
  by (induction ps arbitrary: d) (auto simp: entry_key_def split: sum.splits)

lemma dict_lookup_found:
  "py_key t = Inr k \<Longrightarrow> d k = Some v \<Longrightarrow> dict_lookup d t = Inr v"
  by (simp add: dict_lookup_def)

text \<open>
  C9. In the title-to-uuid dict that \<open>get_policies\<close> builds from the catalog listing,
  a title is associated with the uuid of the last entry of the listing that bears it:
  whatever entries with the same title come before it are shadowed.
\<close>

theorem duplicate_titles_last_wins:
  assumes "connect env ''GET'' ''/editor/policy/templates'' JNull st = (Inr data, st')"
      and "py_getitem data ''templates'' = Inr (JArr (pre @ p # post))"
      and "get_policies env st = (Inr policies, st'')"
      and "py_getitem p ''title'' = Inr t" and "py_getitem p ''uuid'' = Inr u"
      and "\<forall>q\<in>set post. entry_key ''title'' q \<noteq> py_key t"
  shows "dict_lookup policies t = Inr u"
proof -
  have d: "dict_of_entries ''title'' ''uuid'' (pre @ p # post) Map.empty = Inr policies"
    using assms(1,2,3) by (simp add: get_policies_def)
  from dict_of_entries_keys [OF d, of p] assms(4) obtain k where k: "py_key t = Inr k"
    by (auto simp: entry_key_def)
  have "policies k = Some u"
    using d _ assms(5)
  proof (rule dict_of_entries_last)
    show "entry_key ''title'' p = Inr k"
      using assms(4) k by (simp add: entry_key_def)
    show "\<forall>q\<in>set post. entry_key ''title'' q \<noteq> Inr k"
      using assms(6) k by simp
  qed
  with k show ?thesis by (rule dict_lookup_found)
qed

theorem duplicate_titles_last_wins_witness:
  "\<not> isl (fst (get_policies (demo_env (drop 1 (demo_script ''run-1''))) (demo_plugin ''p'')))
   \<and> dict_lookup (projr (fst (get_policies (demo_env (drop 1 (demo_script ''run-1''))) (demo_plugin ''p''))))
         (JStr ''Basic Network Scan'') = Inr (JStr ''abc-123'')"
proof -
  let ?env = "demo_env (drop 1 (demo_script ''run-1''))" and ?st = "demo_plugin ''p''"
  let ?pre = "[JObj [(''title'', JStr ''Basic Network Scan''), (''uuid'', JStr ''old-000'')],
               JObj [(''title'', JStr ''Advanced Scan''), (''uuid'', JStr ''def-456'')]]"
  let ?p = "JObj [(''title'', JStr ''Basic Network Scan''), (''uuid'', JStr ''abc-123'')]"
  let ?data = "JObj [(''templates'', JArr (?pre @ ?p # []))]"
  have c: "fst (connect ?env ''GET'' ''/editor/policy/templates'' JNull ?st) = Inr ?data"
    by code_simp
  have g: "\<not> isl (fst (get_policies ?env ?st))"
    by code_simp
  have c': "connect ?env ''GET'' ''/editor/policy/templates'' JNull ?st
            = (Inr ?data, snd (connect ?env ''GET'' ''/editor/policy/templates'' JNull ?st))"
    using c by (simp add: prod_eq_iff)
  have g': "get_policies ?env ?st
            = (Inr (projr (fst (get_policies ?env ?st))), snd (get_policies ?env ?st))"
    using g by (simp add: prod_eq_iff)
  have "dict_lookup (projr (fst (get_policies ?env ?st))) (JStr ''Basic Network Scan'')
        = Inr (JStr ''abc-123'')"
    by (rule duplicate_titles_last_wins [OF c' _ g', where p = ?p and pre = ?pre and post = "[]"])
       simp_all
  with g show ?thesis by simp
qed

lemma py_key_error: "py_key t = Inl e \<Longrightarrow> e = TypeError"
  by (cases t) auto

lemma dict_lookup_absent:
  assumes "dict_of_entries kf vf ps Map.empty = Inr d"
      and "\<forall>p\<in>set ps. entry_key kf p \<noteq> py_key t"
  shows "dict_lookup d t = Inl (if py_key t = Inl TypeError then TypeError else KeyError t)"
proof (cases "py_key t")
  case (Inl e)
  then show ?thesis using py_key_error [OF Inl] by (simp add: dict_lookup_def)
next
  case (Inr k)
  have "d k = Map.empty k"
    using assms Inr by (intro dict_of_entries_absent [OF assms(1)]) simp
  then show ?thesis using Inr by (simp add: dict_lookup_def)
qed

lemma dict_lookup_last:
  assumes "dict_of_entries kf vf (pre @ p # post) Map.empty = Inr d"
      and "entry_key kf p = py_key t" and "py_getitem p vf = Inr v"
      and "\<forall>q\<in>set post. entry_key kf q \<noteq> py_key t"
  shows "dict_lookup d t = Inr v"
proof -
  from dict_of_entries_keys [OF assms(1), of p] assms(2) obtain k where k: "py_key t = Inr k"
    by auto
  have "d k = Some v"
    using assms k by (intro dict_of_entries_last [OF assms(1)]) simp_all
  with k show ?thesis by (rule dict_lookup_found)
qed

lemma requests_append: "requests (a @ b) = requests a @ requests b"
  by (induction a rule: requests.induct) auto

text \<open>
  C5. Let the login and the catalog fetch succeed, the catalog listing the entries \<open>ps\<close>.
  If an entry bears the configured policy title, resolving the title yields the uuid of
  the last such entry (of the only one, when titles are unique), and the next thing the
  run does is to create the scan with exactly that uuid. If no entry bears the title,
  the lookup raises \<open>KeyError\<close> (\<open>TypeError\<close> when the configured value is unhashable)
  and the run ends in the state the catalog fetch left: the login and the catalog fetch
  are the only requests sent, no scan is created or launched.
\<close>

theorem policy_resolution:
  assumes "login env st = (Inr tok, st1)"
      and "connect env ''GET'' ''/editor/policy/templates'' JNull st1 = (Inr data, st2)"
      and "py_getitem data ''templates'' = Inr (JArr ps)"
      and "get_policies env st1 = (Inr policies, st2')"
      and "name = config_get st ''policy''"
  shows "(\<forall>pre p post u.
            ps = pre @ p # post \<and> entry_key ''title'' p = py_key name
            \<and> py_getitem p ''uuid'' = Inr u
            \<and> (\<forall>q\<in>set post. entry_key ''title'' q \<noteq> py_key name) \<longrightarrow>
            dict_lookup policies name = Inr u
            \<and> (\<exists>resp new.
                  trace (snd (do_run fuel env st)) =
                    trace st2 @
                    Exchange (request_of env ''POST'' ''/scans''
                       (JObj [(''uuid'', u),
                              (''settings'',
                               JObj [(''name'', config_get st ''scan_name''),
                                     (''description'', config_get st ''scan_description''),
                                     (''text_targets'', config_get st ''target'')])]) st2) resp
                    # new))
       \<and> ((\<forall>p\<in>set ps. entry_key ''title'' p \<noteq> py_key name) \<longrightarrow>
            do_run fuel env st =
              (Some (Inl (if py_key name = Inl TypeError then TypeError else KeyError name)), st2)
            \<and> requests (trace st2) = requests (trace st) @
                 [request_of env ''POST'' ''/session''
                    (JObj [(''username'', JStr (username st)), (''password'', JStr (password st))]) st,
                  request_of env ''GET'' ''/editor/policy/templates'' JNull st1])"
proof -
  have st2': "st2' = st2"
    using assms(2,4) by (simp add: get_policies_def split: sum.splits)
  have d: "dict_of_entries ''title'' ''uuid'' ps Map.empty = Inr policies"
    using assms(2,3,4) by (simp add: get_policies_def)
  have g: "get_policies env st1 = (Inr policies, st2)"
    using assms(4) st2' by simp
  have cfg: "config_get st2 k = config_get st k" for k
    using login_frame(1) [OF assms(1)] connect_frame(3) [OF assms(2)]
    by (simp add: config_get_def)
  have absent: "do_run fuel env st =
        (Some (Inl (if py_key name = Inl TypeError then TypeError else KeyError name)), st2)
      \<and> requests (trace st2) = requests (trace st) @
           [request_of env ''POST'' ''/session''
              (JObj [(''username'', JStr (username st)), (''password'', JStr (password st))]) st,
            request_of env ''GET'' ''/editor/policy/templates'' JNull st1]"
    if "\<forall>p\<in>set ps. entry_key ''title'' p \<noteq> py_key name"
  proof
    have "dict_lookup policies name =
            Inl (if py_key name = Inl TypeError then TypeError else KeyError name)"
      using d that by (rule dict_lookup_absent)
    then show "do_run fuel env st =
        (Some (Inl (if py_key name = Inl TypeError then TypeError else KeyError name)), st2)"
      using assms(1) g cfg assms(5)
      by (simp add: do_run_phases start_scan_def)
    show "requests (trace st2) = requests (trace st) @
           [request_of env ''POST'' ''/session''
              (JObj [(''username'', JStr (username st)), (''password'', JStr (password st))]) st,
            request_of env ''GET'' ''/editor/policy/templates'' JNull st1]"
      using login_trace [OF assms(1)] connect_trace [OF assms(2)]
      by (simp add: requests_append)
  qed
  have present: "dict_lookup policies name = Inr u
      \<and> (\<exists>resp new.
            trace (snd (do_run fuel env st)) =
              trace st2 @
              Exchange (request_of env ''POST'' ''/scans''
                 (JObj [(''uuid'', u),
                        (''settings'',
                         JObj [(''name'', config_get st ''scan_name''),
                               (''description'', config_get st ''scan_description''),
                               (''text_targets'', config_get st ''target'')])]) st2) resp
              # new)"
    if "ps = pre @ p # post" "entry_key ''title'' p = py_key name"
       "py_getitem p ''uuid'' = Inr u" "\<forall>q\<in>set post. entry_key ''title'' q \<noteq> py_key name"
    for pre p post u
  proof
    let ?d = "JObj [(''uuid'', u),
                    (''settings'',
                     JObj [(''name'', config_get st ''scan_name''),
                           (''description'', config_get st ''scan_description''),
                           (''text_targets'', config_get st ''target'')])]"
    show l: "dict_lookup policies name = Inr u"
      using d that by (intro dict_lookup_last [where pre = pre and p = p and post = post]) simp_all
    obtain c st3 where c: "add env (config_get st ''scan_name'') (config_get st ''scan_description'')
             (config_get st ''target'') u st2 = (c, st3)" by (rule prod.exhaust)
    from add_state [OF c] obtain v where "connect env ''POST'' ''/scans'' ?d st2 = (v, st3)" ..
    note t3 = connect_trace [OF this]
    have "\<exists>new. trace (snd (do_run fuel env st)) = trace st3 @ new"
    proof (cases "\<exists>scan_data sid. c = Inr scan_data \<and> py_getitem scan_data ''id'' = Inr sid")
      case False
      then have "start_scan env st = (fst (start_scan env st), st3)"
        using assms(1) g l c cfg assms(5)
        by (auto simp: start_scan_def split: sum.splits)
      from do_run_after_launch [OF this] show ?thesis .
    next
      case True
      then obtain scan_data sid where s: "c = Inr scan_data" "py_getitem scan_data ''id'' = Inr sid"
        by blast
      obtain e st4 where e: "launch env sid st3 = (e, st4)" by (rule prod.exhaust)
      from launch_quiet [OF e] obtain n4 where n4: "trace st4 = trace st3 @ n4"
        by blast
      have "start_scan env st = (fst (start_scan env st), st4)"
        using assms(1) g l c cfg assms(5) s e
        by (auto simp: start_scan_def split: sum.splits)
      from do_run_after_launch [OF this, of fuel] n4 show ?thesis by auto
    qed
    then show "\<exists>resp new.
            trace (snd (do_run fuel env st)) =
              trace st2 @ Exchange (request_of env ''POST'' ''/scans'' ?d st2) resp # new"
      using t3 by auto
  qed
  show ?thesis
    using absent present by blast
qed

theorem policy_resolution_witness:
  "dict_lookup (projr (fst (get_policies (demo_env (demo_script ''run-1''))
        (snd (login (demo_env (demo_script ''run-1'')) (demo_plugin ''Basic Network Scan''))))))
      (JStr ''Basic Network Scan'') = Inr (JStr ''abc-123'')
   \<and> fst (do_run 5 (demo_env (demo_script ''run-1'')) (demo_plugin ''Nope''))
       = Some (Inl (KeyError (JStr ''Nope'')))
   \<and> length (requests (trace (snd (do_run 5 (demo_env (demo_script ''run-1'')) (demo_plugin ''Nope''))))) = 2"
proof -
  let ?E = "demo_env (demo_script ''run-1'')"
  let ?A = "demo_plugin ''Basic Network Scan''" and ?B = "demo_plugin ''Nope''"
  let ?pre = "[JObj [(''title'', JStr ''Basic Network Scan''), (''uuid'', JStr ''old-000'')],
               JObj [(''title'', JStr ''Advanced Scan''), (''uuid'', JStr ''def-456'')]]"
  let ?p = "JObj [(''title'', JStr ''Basic Network Scan''), (''uuid'', JStr ''abc-123'')]"
  let ?data = "JObj [(''templates'', JArr (?pre @ ?p # []))]"
  let ?cat = "''/editor/policy/templates''"
  have la: "fst (login ?E ?A) = Inr (JStr ''t0k'')" by code_simp
  have ca: "fst (connect ?E ''GET'' ?cat JNull (snd (login ?E ?A))) = Inr ?data" by code_simp
  have ga: "\<not> isl (fst (get_policies ?E (snd (login ?E ?A))))" by code_simp
  have lb: "fst (login ?E ?B) = Inr (JStr ''t0k'')" by code_simp
  have cb: "fst (connect ?E ''GET'' ?cat JNull (snd (login ?E ?B))) = Inr ?data" by code_simp
  have gb: "\<not> isl (fst (get_policies ?E (snd (login ?E ?B))))" by code_simp
  have la': "login ?E ?A = (Inr (JStr ''t0k''), snd (login ?E ?A))"
    using la by (simp add: prod_eq_iff)
  have lb': "login ?E ?B = (Inr (JStr ''t0k''), snd (login ?E ?B))"
    using lb by (simp add: prod_eq_iff)
  have ca': "connect ?E ''GET'' ?cat JNull (snd (login ?E ?A))
             = (Inr ?data, snd (connect ?E ''GET'' ?cat JNull (snd (login ?E ?A))))"
    using ca by (simp add: prod_eq_iff)
  have cb': "connect ?E ''GET'' ?cat JNull (snd (login ?E ?B))
             = (Inr ?data, snd (connect ?E ''GET'' ?cat JNull (snd (login ?E ?B))))"
    using cb by (simp add: prod_eq_iff)
  have ga': "get_policies ?E (snd (login ?E ?A))
             = (Inr (projr (fst (get_policies ?E (snd (login ?E ?A))))),
                snd (get_policies ?E (snd (login ?E ?A))))"
    using ga by (simp add: prod_eq_iff)
  have gb': "get_policies ?E (snd (login ?E ?B))
             = (Inr (projr (fst (get_policies ?E (snd (login ?E ?B))))),
                snd (get_policies ?E (snd (login ?E ?B))))"
    using gb by (simp add: prod_eq_iff)
  have d: "py_getitem ?data ''templates'' = Inr (JArr (?pre @ ?p # []))"
    by simp
  have na: "config_get ?A ''policy'' = JStr ''Basic Network Scan''"
    and nb: "config_get ?B ''policy'' = JStr ''Nope''"
    by (simp_all add: config_get_def demo_plugin_def)
  note ta = policy_resolution [OF la' ca' d ga' na [symmetric], of 5]
  note tb = policy_resolution [OF lb' cb' d gb' nb [symmetric], of 5]
  have "entry_key ''title'' ?p = py_key (JStr ''Basic Network Scan'')
        \<and> py_getitem ?p ''uuid'' = Inr (JStr ''abc-123'')
        \<and> (\<forall>q\<in>set []. entry_key ''title'' q \<noteq> py_key (JStr ''Basic Network Scan''))"
    by (simp add: entry_key_def)
  with ta have a: "dict_lookup (projr (fst (get_policies ?E (snd (login ?E ?A)))))
      (JStr ''Basic Network Scan'') = Inr (JStr ''abc-123'')"
    by blast
  have "\<forall>p\<in>set (?pre @ ?p # []). entry_key ''title'' p \<noteq> py_key (JStr ''Nope'')"
    by (simp add: entry_key_def)
  with tb have b: "do_run 5 ?E ?B =
        (Some (Inl (if py_key (JStr ''Nope'') = Inl TypeError then TypeError
                    else KeyError (JStr ''Nope''))),
         snd (connect ?E ''GET'' ?cat JNull (snd (login ?E ?B))))"
      and r: "requests (trace (snd (connect ?E ''GET'' ?cat JNull (snd (login ?E ?B))))) =
        requests (trace ?B) @
          [request_of ?E ''POST'' ''/session''
             (JObj [(''username'', JStr (username ?B)), (''password'', JStr (password ?B))]) ?B,
           request_of ?E ''GET'' ?cat JNull (snd (login ?E ?B))]"
    by blast+
  have "requests (trace ?B) = []"
    by (simp add: demo_plugin_def)
  with a b r show ?thesis
    by simp
qed

text \<open>
  C6. Let the launch return the run uuid \<open>run_uuid\<close> and the history listing be fetched,
  with entries \<open>hs\<close>. If an entry has that uuid, the history id selected is the
  \<^verbatim>\<open>history_id\<close> of the last such entry, the rest of the run is \<open>collect_results\<close> with
  that id, and every request sent from then on that carries a history id (the status
  polls and the export request) carries this one. If no entry has that uuid, the lookup
  raises \<open>KeyError\<close> (\<open>TypeError\<close> for an unhashable uuid) and the run ends there.
\<close>

theorem run_resolution:
  assumes "start_scan env st = (Inr (sid, run_uuid), st4)"
      and "connect env ''GET'' (''/scans/'' @ py_str (py_repr env) sid) JNull st4 = (Inr data, st5)"
      and "py_getitem data ''history'' = Inr (JArr hs)"
      and "get_history_ids env sid st4 = (Inr history_ids, st5')"
  shows "(\<forall>pre h post hid.
            hs = pre @ h # post \<and> entry_key ''uuid'' h = py_key run_uuid
            \<and> py_getitem h ''history_id'' = Inr hid
            \<and> (\<forall>q\<in>set post. entry_key ''uuid'' q \<noteq> py_key run_uuid) \<longrightarrow>
            dict_lookup history_ids run_uuid = Inr hid
            \<and> do_run fuel env st = collect_results fuel env sid hid st5
            \<and> (\<exists>new. trace (snd (do_run fuel env st)) = trace st5 @ new
                  \<and> (\<forall>req resp x. Exchange req resp \<in> set new
                         \<and> py_getitem (payload req) ''history_id'' = Inr x \<longrightarrow> x = hid)))
       \<and> ((\<forall>h\<in>set hs. entry_key ''uuid'' h \<noteq> py_key run_uuid) \<longrightarrow>
            do_run fuel env st =
              (Some (Inl (if py_key run_uuid = Inl TypeError then TypeError
                          else KeyError run_uuid)), st5))"
proof -
  have st5': "st5' = st5"
    using assms(2,4)
    by (simp add: get_history_ids_def split: sum.splits del: append.simps)
  have d: "dict_of_entries ''uuid'' ''history_id'' hs Map.empty = Inr history_ids"
    using assms(2,3,4) by (simp add: get_history_ids_def del: append.simps)
  have g: "get_history_ids env sid st4 = (Inr history_ids, st5)"
    using assms(4) st5' by simp
  have run: "do_run fuel env st =
      (case dict_lookup history_ids run_uuid of
         Inl e \<Rightarrow> (Some (Inl e), st5)
       | Inr history_id \<Rightarrow> collect_results fuel env sid history_id st5)"
    using assms(1) g by (simp add: do_run_phases)
  have absent: "do_run fuel env st =
        (Some (Inl (if py_key run_uuid = Inl TypeError then TypeError else KeyError run_uuid)), st5)"
    if "\<forall>h\<in>set hs. entry_key ''uuid'' h \<noteq> py_key run_uuid"
    using dict_lookup_absent [OF d that] run by simp
  have present: "dict_lookup history_ids run_uuid = Inr hid
      \<and> do_run fuel env st = collect_results fuel env sid hid st5
      \<and> (\<exists>new. trace (snd (do_run fuel env st)) = trace st5 @ new
            \<and> (\<forall>req resp x. Exchange req resp \<in> set new
                   \<and> py_getitem (payload req) ''history_id'' = Inr x \<longrightarrow> x = hid))"
    if "hs = pre @ h # post" "entry_key ''uuid'' h = py_key run_uuid"
       "py_getitem h ''history_id'' = Inr hid" "\<forall>q\<in>set post. entry_key ''uuid'' q \<noteq> py_key run_uuid"
    for pre h post hid
  proof (intro conjI)
    show l: "dict_lookup history_ids run_uuid = Inr hid"
      using d that by (intro dict_lookup_last [where pre = pre and p = h and post = post]) simp_all
    show c: "do_run fuel env st = collect_results fuel env sid hid st5"
      using run l by simp
    let ?P = "\<lambda>e. case e of
                 Exchange req resp \<Rightarrow>
                   (case py_getitem (payload req) ''history_id'' of Inl e \<Rightarrow> True | Inr x \<Rightarrow> x = hid)
               | _ \<Rightarrow> True"
    have "collect_results fuel env sid hid st5 = (fst (do_run fuel env st), snd (do_run fuel env st))"
      using c by simp
    from collect_results_events [where P = ?P, OF this]
    obtain new where n: "trace (snd (do_run fuel env st)) = trace st5 @ new" "\<forall>e\<in>set new. ?P e"
      by auto
    have "x = hid" if "Exchange req resp \<in> set new" "py_getitem (payload req) ''history_id'' = Inr x"
      for req resp x
      using n(2) that by force
    with n(1) show "\<exists>new. trace (snd (do_run fuel env st)) = trace st5 @ new
            \<and> (\<forall>req resp x. Exchange req resp \<in> set new
                   \<and> py_getitem (payload req) ''history_id'' = Inr x \<longrightarrow> x = hid)"
      by blast
  qed
  show ?thesis
    using absent present by blast
qed

theorem run_resolution_witness:
  "dict_lookup (projr (fst (get_history_ids (demo_env (demo_script ''run-1'')) (JInt 42)
        (snd (start_scan (demo_env (demo_script ''run-1'')) (demo_plugin ''Basic Network Scan''))))))
      (JStr ''run-1'') = Inr (JInt 7)
   \<and> concat (map (\<lambda>req. case py_getitem (payload req) ''history_id'' of Inl e \<Rightarrow> [] | Inr x \<Rightarrow> [x])
        (requests (trace (snd (do_run 5 (demo_env (demo_script ''run-1''))
           (demo_plugin ''Basic Network Scan''))))))
       = [JInt 7, JInt 7, JInt 7, JInt 7]
   \<and> fst (do_run 5 (demo_env (demo_script ''run-9'')) (demo_plugin ''Basic Network Scan''))
       = Some (Inl (KeyError (JStr ''run-9'')))
   \<and> length (requests (trace (snd (do_run 5 (demo_env (demo_script ''run-9''))
        (demo_plugin ''Basic Network Scan''))))) = 5"
proof -
  let ?A = "demo_env (demo_script ''run-1'')" and ?B = "demo_env (demo_script ''run-9'')"
  let ?S = "demo_plugin ''Basic Network Scan''"
  let ?pre = "[JObj [(''uuid'', JStr ''run-0''), (''history_id'', JInt 6)]]"
  let ?h = "JObj [(''uuid'', JStr ''run-1''), (''history_id'', JInt 7)]"
  let ?data = "JObj [(''history'', JArr (?pre @ ?h # []))]"
  have sa: "fst (start_scan ?A ?S) = Inr (JInt 42, JStr ''run-1'')" by code_simp
  have sb: "fst (start_scan ?B ?S) = Inr (JInt 42, JStr ''run-9'')" by code_simp
  have ca: "fst (connect ?A ''GET'' (''/scans/'' @ py_str (py_repr ?A) (JInt 42)) JNull
                  (snd (start_scan ?A ?S))) = Inr ?data" by code_simp
  have cb: "fst (connect ?B ''GET'' (''/scans/'' @ py_str (py_repr ?B) (JInt 42)) JNull
                  (snd (start_scan ?B ?S))) = Inr ?data" by code_simp
  have ga: "\<not> isl (fst (get_history_ids ?A (JInt 42) (snd (start_scan ?A ?S))))" by code_simp
  have gb: "\<not> isl (fst (get_history_ids ?B (JInt 42) (snd (start_scan ?B ?S))))" by code_simp
  have payloads: "concat (map (\<lambda>req. case py_getitem (payload req) ''history_id'' of
                                        Inl e \<Rightarrow> [] | Inr x \<Rightarrow> [x])
        (requests (trace (snd (do_run 5 ?A ?S))))) = [JInt 7, JInt 7, JInt 7, JInt 7]"
    by code_simp
  have nb: "length (requests (trace (snd (connect ?B ''GET'' (''/scans/'' @ py_str (py_repr ?B) (JInt 42))
                  JNull (snd (start_scan ?B ?S)))))) = 5"
    by code_simp
  have sa': "start_scan ?A ?S = (Inr (JInt 42, JStr ''run-1''), snd (start_scan ?A ?S))"
    using sa by (simp add: prod_eq_iff)
  have sb': "start_scan ?B ?S = (Inr (JInt 42, JStr ''run-9''), snd (start_scan ?B ?S))"
    using sb by (simp add: prod_eq_iff)
  have ca': "connect ?A ''GET'' (''/scans/'' @ py_str (py_repr ?A) (JInt 42)) JNull (snd (start_scan ?A ?S))
             = (Inr ?data, snd (connect ?A ''GET'' (''/scans/'' @ py_str (py_repr ?A) (JInt 42)) JNull
                  (snd (start_scan ?A ?S))))"
    using ca by (simp add: prod_eq_iff)
  have cb': "connect ?B ''GET'' (''/scans/'' @ py_str (py_repr ?B) (JInt 42)) JNull (snd (start_scan ?B ?S))
             = (Inr ?data, snd (connect ?B ''GET'' (''/scans/'' @ py_str (py_repr ?B) (JInt 42)) JNull
                  (snd (start_scan ?B ?S))))"
    using cb by (simp add: prod_eq_iff)
  have ga': "get_history_ids ?A (JInt 42) (snd (start_scan ?A ?S))
             = (Inr (projr (fst (get_history_ids ?A (JInt 42) (snd (start_scan ?A ?S))))),
                snd (get_history_ids ?A (JInt 42) (snd (start_scan ?A ?S))))"
    using ga by (simp add: prod_eq_iff)
  have gb': "get_history_ids ?B (JInt 42) (snd (start_scan ?B ?S))
             = (Inr (projr (fst (get_history_ids ?B (JInt 42) (snd (start_scan ?B ?S))))),
                snd (get_history_ids ?B (JInt 42) (snd (start_scan ?B ?S))))"
    using gb by (simp add: prod_eq_iff)
  have d: "py_getitem ?data ''history'' = Inr (JArr (?pre @ ?h # []))"
    by simp
  note ta = run_resolution [OF sa' ca' d ga', of 5]
  note tb = run_resolution [OF sb' cb' d gb', of 5]
  have "entry_key ''uuid'' ?h = py_key (JStr ''run-1'')
        \<and> py_getitem ?h ''history_id'' = Inr (JInt 7)
        \<and> (\<forall>q\<in>set []. entry_key ''uuid'' q \<noteq> py_key (JStr ''run-1''))"
    by (simp add: entry_key_def)
  with ta have a: "dict_lookup (projr (fst (get_history_ids ?A (JInt 42) (snd (start_scan ?A ?S)))))
      (JStr ''run-1'') = Inr (JInt 7)"
    by blast
  have "\<forall>h\<in>set (?pre @ ?h # []). entry_key ''uuid'' h \<noteq> py_key (JStr ''run-9'')"
    by (simp add: entry_key_def)
  with tb have b: "do_run 5 ?B ?S =
        (Some (Inl (if py_key (JStr ''run-9'') = Inl TypeError then TypeError
                    else KeyError (JStr ''run-9''))),
         snd (connect ?B ''GET'' (''/scans/'' @ py_str (py_repr ?B) (JInt 42)) JNull
                  (snd (start_scan ?B ?S))))"
    by blast
  from a b payloads nb show ?thesis
    by simp
qed

section \<open>Claims about the transform pass\<close>

subsection \<open>The loop over the rows\<close>

lemma sink_events_append: "sink_events (a @ b) = sink_events a @ sink_events b"
  by (induction a rule: sink_events.induct) auto

lemma py_index_head:
  assumes "py_index row 0 = Inr pid"
  shows "row \<noteq> []" "hd row = pid" "is_header row \<longleftrightarrow> pid = ''Plugin ID''"
  using assms by (cases row; auto simp: py_index_def)+

lemma get_plugin_info_trace:
  assumes "get_plugin_info env (JStr pid) st = (r, st')"
  shows "trace st' = trace st @
           [Exchange (request_of env ''GET'' (''/plugins/plugin/'' @ pid) JNull st)
                     (server env (trace st) (request_of env ''GET'' (''/plugins/plugin/'' @ pid) JNull st))]"
    and "token st' = token st" and "server_url st' = server_url st"
proof -
  have c: "connect env ''GET'' (''/plugins/plugin/'' @ pid) JNull st = (r, st')"
    using assms by (simp add: get_plugin_info_def del: append.simps)
  show "trace st' = trace st @
           [Exchange (request_of env ''GET'' (''/plugins/plugin/'' @ pid) JNull st)
                     (server env (trace st) (request_of env ''GET'' (''/plugins/plugin/'' @ pid) JNull st))]"
    by (rule connect_trace [OF c])
  show "token st' = token st" "server_url st' = server_url st"
    using connect_frame [OF c] by simp_all
qed

text \<open>One round of the loop of \<open>parse_csv_data\<close> on a data row.\<close>

lemma parse_rows_data_row:
  assumes "py_index row 0 = Inr pid" and "pid \<noteq> ''Plugin ID''"
  shows "parse_rows env (Inr row # rest) plugins st =
     (case plugins pid of
        None \<Rightarrow>
          (case get_plugin_info env (JStr pid) st of
             (Inl e, st1) \<Rightarrow> (Inl e, st1)
           | (Inr info, st1) \<Rightarrow>
               (case create_issue row info of
                  Inl e \<Rightarrow> (Inl e, st1)
                | Inr i \<Rightarrow> parse_rows env rest (plugins(pid \<mapsto> info)) (report_issue i st1)))
      | Some info \<Rightarrow>
          (case create_issue row info of
             Inl e \<Rightarrow> (Inl e, st)
           | Inr i \<Rightarrow> parse_rows env rest plugins (report_issue i st)))"
  using assms by (simp split: option.splits prod.splits sum.splits)

lemma parse_rows_reports:
  assumes "parse_rows env items plugins st = (Inr u, st')"
  shows "\<exists>rows reported new.
           items = map Inr rows
           \<and> list_all2 (\<lambda>row i. \<exists>info. create_issue row info = Inr i)
                (filter (\<lambda>row. \<not> is_header row) rows) reported
           \<and> trace st' = trace st @ new
           \<and> sink_events new = map ReportIssue reported"
  using assms
proof (induction items arbitrary: plugins st)
  case Nil
  then show ?case by simp
next
  case (Cons item rest)
  from Cons.prems obtain row pid where row: "item = Inr row" "py_index row 0 = Inr pid"
    by (auto split: sum.splits)
  note hd = py_index_head [OF row(2)]
  show ?case
  proof (cases "pid = ''Plugin ID''")
    case True
    then have "parse_rows env rest plugins st = (Inr u, st')"
      using Cons.prems row by simp
    from Cons.IH [OF this] obtain rows reported new where
      "rest = map Inr rows"
      "list_all2 (\<lambda>row i. \<exists>info. create_issue row info = Inr i)
         (filter (\<lambda>row. \<not> is_header row) rows) reported"
      "trace st' = trace st @ new" "sink_events new = map ReportIssue reported"
      by blast
    then have "item # rest = map Inr (row # rows)
       \<and> list_all2 (\<lambda>row i. \<exists>info. create_issue row info = Inr i)
            (filter (\<lambda>row. \<not> is_header row) (row # rows)) reported
       \<and> trace st' = trace st @ new \<and> sink_events new = map ReportIssue reported"
      using row hd True by simp
    then show ?thesis by (intro exI)
  next
    case False
    have step: "(case plugins pid of
        None \<Rightarrow>
          (case get_plugin_info env (JStr pid) st of
             (Inl e, st1) \<Rightarrow> (Inl e, st1)
           | (Inr info, st1) \<Rightarrow>
               (case create_issue row info of
                  Inl e \<Rightarrow> (Inl e, st1)
                | Inr i \<Rightarrow> parse_rows env rest (plugins(pid \<mapsto> info)) (report_issue i st1)))
      | Some info \<Rightarrow>
          (case create_issue row info of
             Inl e \<Rightarrow> (Inl e, st)
           | Inr i \<Rightarrow> parse_rows env rest plugins (report_issue i st))) = (Inr u, st')"
      using Cons.prems unfolding row(1) parse_rows_data_row [OF row(2) False] .
    have "\<exists>plugins1 st1 new1 info i.
            parse_rows env rest plugins1 (report_issue i st1) = (Inr u, st')
            \<and> create_issue row info = Inr i
            \<and> trace st1 = trace st @ new1 \<and> sink_events new1 = []"
    proof (cases "plugins pid")
      case None
      with step obtain info st1 i where f: "get_plugin_info env (JStr pid) st = (Inr info, st1)"
          "create_issue row info = Inr i"
          "parse_rows env rest (plugins(pid \<mapsto> info)) (report_issue i st1) = (Inr u, st')"
        by (auto split: prod.splits sum.splits)
      have "trace st1 = trace st @ [Exchange (request_of env ''GET'' (''/plugins/plugin/'' @ pid) JNull st)
                     (server env (trace st) (request_of env ''GET'' (''/plugins/plugin/'' @ pid) JNull st))]"
        by (rule get_plugin_info_trace(1) [OF f(1)])
      moreover have "sink_events [Exchange (request_of env ''GET'' (''/plugins/plugin/'' @ pid) JNull st)
                     (server env (trace st) (request_of env ''GET'' (''/plugins/plugin/'' @ pid) JNull st))] = []"
        by simp
      ultimately show ?thesis using f(2,3) by blast
    next
      case (Some info)
      with step obtain i where f: "create_issue row info = Inr i"
          "parse_rows env rest plugins (report_issue i st) = (Inr u, st')"
        by (auto split: sum.splits)
      have "trace st = trace st @ [] \<and> sink_events [] = []" by simp
      with f show ?thesis by blast
    qed
    then obtain plugins1 st1 new1 info i where reported:
        "parse_rows env rest plugins1 (report_issue i st1) = (Inr u, st')"
        "create_issue row info = Inr i"
      and n1: "trace st1 = trace st @ new1" "sink_events new1 = []"
      by blast
    show ?thesis
    proof -
      from Cons.IH [OF reported(1)] obtain rows reported' new2 where ih:
        "rest = map Inr rows"
        "list_all2 (\<lambda>row i. \<exists>info. create_issue row info = Inr i)
           (filter (\<lambda>row. \<not> is_header row) rows) reported'"
        "trace st' = trace (report_issue i st1) @ new2" "sink_events new2 = map ReportIssue reported'"
        by blast
      have "item # rest = map Inr (row # rows)
         \<and> list_all2 (\<lambda>row i. \<exists>info. create_issue row info = Inr i)
              (filter (\<lambda>row. \<not> is_header row) (row # rows)) (i # reported')
         \<and> trace st' = trace st @ (new1 @ ReportIssue i # new2)
         \<and> sink_events (new1 @ ReportIssue i # new2) = map ReportIssue (i # reported')"
        using row hd False ih n1 reported(2)
        by (auto simp: report_issue_def sink_events_append)
      then show ?thesis by (intro exI)
    qed
  qed
qed

lemma report_issue_frame [simp]:
  "token (report_issue i st) = token st" "server_url (report_issue i st) = server_url st"
  "trace (report_issue i st) = trace st @ [ReportIssue i]"
  by (simp_all add: report_issue_def)

lemma parse_rows_fetches:
  assumes "parse_rows env items plugins st = (r, st')"
  shows "\<exists>new pids.
           trace st' = trace st @ new
           \<and> requests new = map (\<lambda>pid. request_of env ''GET'' (''/plugins/plugin/'' @ pid) JNull st) pids
           \<and> distinct pids \<and> set pids \<inter> dom plugins = {}
           \<and> token st' = token st \<and> server_url st' = server_url st
           \<and> (\<not> isl r \<longrightarrow>
                set pids = hd ` {row. Inr row \<in> set items \<and> \<not> is_header row} - dom plugins)"
    (is "\<exists>new pids. ?Q items plugins st r st' new pids")
  using assms
proof (induction items arbitrary: plugins st)
  case Nil
  then have "?Q [] plugins st r st' [] []" by simp
  then show ?case by (intro exI)
next
  case (Cons item rest)
  let ?req = "\<lambda>pid. request_of env ''GET'' (''/plugins/plugin/'' @ pid) JNull st"
  have stop: ?case if "st' = st" "isl r"
  proof -
    have "?Q (item # rest) plugins st r st' [] []" using that by simp
    then show ?thesis by (intro exI)
  qed
  show ?case
  proof (cases "\<exists>row pid. item = Inr row \<and> py_index row 0 = Inr pid")
    case False
    then have "st' = st" "isl r"
      using Cons.prems by (auto split: sum.splits)
    then show ?thesis by (rule stop)
  next
    case True
    then obtain row pid where row: "item = Inr row" "py_index row 0 = Inr pid"
      by blast
    note hd = py_index_head [OF row(2)]
    show ?thesis
    proof (cases "pid = ''Plugin ID''")
      case True
      then have "parse_rows env rest plugins st = (r, st')"
        using Cons.prems row by simp
      from Cons.IH [OF this] obtain new pids where ih: "?Q rest plugins st r st' new pids"
        by blast
      have "{row'. Inr row' \<in> set (item # rest) \<and> \<not> is_header row'}
            = {row'. Inr row' \<in> set rest \<and> \<not> is_header row'}"
        using row hd True by auto
      with ih have "?Q (item # rest) plugins st r st' new pids" by simp
      then show ?thesis by (intro exI)
    next
      case False
      have ids: "hd ` {row'. Inr row' \<in> set (item # rest) \<and> \<not> is_header row'}
            = insert pid (hd ` {row'. Inr row' \<in> set rest \<and> \<not> is_header row'})"
        using row hd False by auto
      note step = Cons.prems [unfolded row(1) parse_rows_data_row [OF row(2) False]]
      show ?thesis
      proof (cases "plugins pid")
        case (Some info)
        show ?thesis
        proof (cases "create_issue row info")
          case (Inl e)
          then have "st' = st" "isl r" using step Some by auto
          then show ?thesis by (rule stop)
        next
          case (Inr i)
          then have "parse_rows env rest plugins (report_issue i st) = (r, st')"
            using step Some by simp
          from Cons.IH [OF this] obtain new pids
            where ih: "?Q rest plugins (report_issue i st) r st' new pids"
            by blast
          have rq: "request_of env ''GET'' (''/plugins/plugin/'' @ p) JNull (report_issue i st) = ?req p"
            for p by (rule request_of_cong) simp_all
          have "?Q (item # rest) plugins st r st' (ReportIssue i # new) pids"
            using ih Some unfolding ids rq by auto
          then show ?thesis by (intro exI)
        qed
      next
        case None
        obtain g st1 where g: "get_plugin_info env (JStr pid) st = (g, st1)" by (rule prod.exhaust)
        note t1 = get_plugin_info_trace [OF g]
        let ?x = "Exchange (?req pid) (server env (trace st) (?req pid))"
        have fetched: ?thesis if "st' = st1" "isl r"
        proof -
          have "pid \<notin> dom plugins"
            using None by (simp add: domIff)
          then have "?Q (item # rest) plugins st r st' [?x] [pid]"
            using that t1 by simp
          then show ?thesis by (intro exI)
        qed
        show ?thesis
        proof (cases "\<exists>info i. g = Inr info \<and> create_issue row info = Inr i")
          case False
          then have "st' = st1" "isl r"
            using step None g by (auto split: sum.splits)
          then show ?thesis by (rule fetched)
        next
          case True
          then obtain info i where ok: "g = Inr info" "create_issue row info = Inr i"
            by blast
          have "parse_rows env rest (plugins(pid \<mapsto> info)) (report_issue i st1) = (r, st')"
            using step None g ok by simp
          from Cons.IH [OF this] obtain new pids
            where ih: "?Q rest (plugins(pid \<mapsto> info)) (report_issue i st1) r st' new pids"
            by blast
          have rq: "request_of env ''GET'' (''/plugins/plugin/'' @ p) JNull (report_issue i st1) = ?req p"
            for p using t1(2,3) by (intro request_of_cong) simp_all
          have disj: "set pids \<inter> dom (plugins(pid \<mapsto> info)) = {}" and dist: "distinct pids"
            using ih by blast+
          have notin: "pid \<notin> set pids" "set pids \<inter> dom plugins = {}"
            using disj by auto
          have fresh: "pid \<notin> dom plugins"
            using None by (simp add: domIff)
          have "trace st' = trace st @ (?x # ReportIssue i # new)"
            using ih t1(1) by simp
          moreover have "requests (?x # ReportIssue i # new) = map ?req (pid # pids)"
            using ih unfolding rq by simp
          moreover have "distinct (pid # pids)" "set (pid # pids) \<inter> dom plugins = {}"
            using dist notin fresh by auto
          moreover have "token st' = token st" "server_url st' = server_url st"
            using ih t1(2,3) by simp_all
          moreover have "set (pid # pids) = insert pid (hd ` {row'. Inr row' \<in> set rest \<and> \<not> is_header row'})
                            - dom plugins" if "\<not> isl r"
          proof -
            have "set pids = hd ` {row'. Inr row' \<in> set rest \<and> \<not> is_header row'}
                              - dom (plugins(pid \<mapsto> info))"
              using ih that by blast
            then show ?thesis using fresh by auto
          qed
          ultimately have "?Q (item # rest) plugins st r st' (?x # ReportIssue i # new) (pid # pids)"
            unfolding ids by blast
          then show ?thesis by (intro exI)
        qed
      qed
    qed
  qed
qed

text \<open>
  C4. Whenever the transform completes on a downloaded body, the CSV reader yielded
  rows only; the rows whose first column is \<^verbatim>\<open>Plugin ID\<close> are skipped; every other row
  gave exactly one Issue, built by \<open>create_issue\<close> from that row (equal rows give equal
  Issues again, nothing is merged); the sink received these Issues in row order and
  then the finish signal, once, as its last event.
\<close>

theorem parse_csv_data_reports_rows:
  assumes "parse_csv_data env data st = (Inr issues, st')"
  shows "\<exists>lines rows reported new.
           py_splitlines data = Inr lines
           \<and> csv_reader env lines = map Inr rows
           \<and> list_all2 (\<lambda>row i. \<exists>info. create_issue row info = Inr i)
                (filter (\<lambda>row. \<not> is_header row) rows) reported
           \<and> trace st' = trace st @ new
           \<and> sink_events new = map ReportIssue reported @ [ReportFinish]"
proof -
  from assms obtain lines u st1 where l: "py_splitlines data = Inr lines"
      and p: "parse_rows env (csv_reader env lines) Map.empty st = (Inr u, st1)"
      and f: "st' = report_finish st1"
    by (auto simp: parse_csv_data_def split: sum.splits prod.splits)
  from parse_rows_reports [OF p] obtain rows reported new where r:
    "csv_reader env lines = map Inr rows"
    "list_all2 (\<lambda>row i. \<exists>info. create_issue row info = Inr i)
       (filter (\<lambda>row. \<not> is_header row) rows) reported"
    "trace st1 = trace st @ new" "sink_events new = map ReportIssue reported"
    by blast
  have "trace st' = trace st @ (new @ [ReportFinish])
      \<and> sink_events (new @ [ReportFinish]) = map ReportIssue reported @ [ReportFinish]"
    using r f by (simp add: report_finish_def sink_events_append)
  with l r(1,2) show ?thesis by blast
qed

theorem parse_csv_data_reports_rows_witness:
  "fst (parse_csv_data (demo_env (drop 12 (demo_script ''run-1''))) (JStr demo_body) (demo_plugin ''p''))
     = Inr []
   \<and> (\<exists>lines rows reported.
         py_splitlines (JStr demo_body) = Inr lines
         \<and> csv_reader (demo_env (drop 12 (demo_script ''run-1''))) lines = map Inr rows
         \<and> list_all2 (\<lambda>row i. \<exists>info. create_issue row info = Inr i)
              (filter (\<lambda>row. \<not> is_header row) rows) reported
         \<and> sink_events (trace (snd (parse_csv_data (demo_env (drop 12 (demo_script ''run-1'')))
               (JStr demo_body) (demo_plugin ''p''))))
             = map ReportIssue reported @ [ReportFinish])
   \<and> map Summary (concat (map (\<lambda>e. case e of ReportIssue i \<Rightarrow> [i] | _ \<Rightarrow> [])
         (trace (snd (parse_csv_data (demo_env (drop 12 (demo_script ''run-1'')))
               (JStr demo_body) (demo_plugin ''p''))))))
       = [''syn'', ''syn2'']"
proof -
  let ?run = "parse_csv_data (demo_env (drop 12 (demo_script ''run-1''))) (JStr demo_body)
                (demo_plugin ''p'')"
  have f: "fst ?run = Inr []"
    by code_simp
  have s: "map Summary (concat (map (\<lambda>e. case e of ReportIssue i \<Rightarrow> [i] | _ \<Rightarrow> [])
             (trace (snd ?run)))) = [''syn'', ''syn2'']"
    by code_simp
  have "?run = (Inr [], snd ?run)"
    using f by (simp add: prod_eq_iff)
  from parse_csv_data_reports_rows [OF this]
  obtain lines rows reported new where r: "py_splitlines (JStr demo_body) = Inr lines"
      "csv_reader (demo_env (drop 12 (demo_script ''run-1''))) lines = map Inr rows"
      "list_all2 (\<lambda>row i. \<exists>info. create_issue row info = Inr i)
         (filter (\<lambda>row. \<not> is_header row) rows) reported"
      "trace (snd ?run) = trace (demo_plugin ''p'') @ new"
      "sink_events new = map ReportIssue reported @ [ReportFinish]"
    by blast
  have "trace (snd ?run) = new"
    using r(4) by (simp add: demo_plugin_def)
  with r f s show ?thesis
    by blast
qed

text \<open>
  C8. In one transform pass, whether it completes or stops at an error, the requests
  sent are plugin-metadata fetches for pairwise distinct plugin ids: no id is fetched
  twice. When the pass completes, the ids fetched are exactly the plugin ids of the
  data rows, and still every data row gave one Issue, built by \<open>create_issue\<close> from that
  row, the Issues reaching the sink in row order, followed by the finish signal.
\<close>

theorem plugin_info_fetched_once:
  assumes "parse_csv_data env data st = (r, st')"
  shows "\<exists>new pids.
           trace st' = trace st @ new
           \<and> requests new =
               map (\<lambda>pid. request_of env ''GET'' (''/plugins/plugin/'' @ pid) JNull st) pids
           \<and> distinct pids
           \<and> (\<not> isl r \<longrightarrow>
                (\<exists>lines rows reported.
                   py_splitlines data = Inr lines
                   \<and> csv_reader env lines = map Inr rows
                   \<and> set pids = hd ` {row \<in> set rows. \<not> is_header row}
                   \<and> list_all2 (\<lambda>row i. \<exists>info. create_issue row info = Inr i)
                        (filter (\<lambda>row. \<not> is_header row) rows) reported
                   \<and> sink_events new = map ReportIssue reported @ [ReportFinish]
                   \<and> length reported = length (filter (\<lambda>row. \<not> is_header row) rows)))"
proof (cases "py_splitlines data")
  case (Inl e)
  then have "trace st' = trace st @ [] \<and> requests [] = map (\<lambda>pid. request_of env ''GET'' (''/plugins/plugin/'' @ pid) JNull st) []
     \<and> distinct ([] :: string list) \<and> isl r"
    using assms by (auto simp: parse_csv_data_def)
  then show ?thesis by blast
next
  case (Inr lines)
  let ?rq = "\<lambda>pid. request_of env ''GET'' (''/plugins/plugin/'' @ pid) JNull st"
  obtain q st1 where q: "parse_rows env (csv_reader env lines) Map.empty st = (q, st1)"
    by (rule prod.exhaust)
  from parse_rows_fetches [OF q] obtain new pids where n:
    "trace st1 = trace st @ new" "requests new = map ?rq pids" "distinct pids"
    "\<not> isl q \<longrightarrow> set pids = hd ` {row. Inr row \<in> set (csv_reader env lines) \<and> \<not> is_header row} - dom Map.empty"
    by blast
  show ?thesis
  proof (cases q)
    case e: (Inl e)
    then have "st' = st1" "isl r"
      using assms Inr q by (auto simp: parse_csv_data_def)
    with n show ?thesis by blast
  next
    case u: (Inr u)
    then have st': "st' = report_finish st1" and r: "\<not> isl r"
      using assms Inr q by (auto simp: parse_csv_data_def)
    from parse_rows_reports [OF q [unfolded u]] obtain rows reported new' where p:
      "csv_reader env lines = map Inr rows"
      "list_all2 (\<lambda>row i. \<exists>info. create_issue row info = Inr i)
         (filter (\<lambda>row. \<not> is_header row) rows) reported"
      "trace st1 = trace st @ new'" "sink_events new' = map ReportIssue reported"
      by blast
    have same: "new' = new" using n(1) p(3) by simp
    have ids: "set pids = hd ` {row \<in> set rows. \<not> is_header row}"
      using n(4) u p(1) by auto
    have t: "trace st' = trace st @ (new @ [ReportFinish])"
      using st' n(1) by (simp add: report_finish_def)
    have rq: "requests (new @ [ReportFinish]) = map ?rq pids"
      using n(2) by (simp add: requests_append)
    have sk: "sink_events (new @ [ReportFinish]) = map ReportIssue reported @ [ReportFinish]"
      using p(4) same by (simp add: sink_events_append)
    have len: "length reported = length (filter (\<lambda>row. \<not> is_header row) rows)"
      using p(2) by (simp add: list_all2_lengthD)
    have fin: "\<exists>lines rows reported.
                   py_splitlines data = Inr lines
                   \<and> csv_reader env lines = map Inr rows
                   \<and> set pids = hd ` {row \<in> set rows. \<not> is_header row}
                   \<and> list_all2 (\<lambda>row i. \<exists>info. create_issue row info = Inr i)
                        (filter (\<lambda>row. \<not> is_header row) rows) reported
                   \<and> sink_events (new @ [ReportFinish]) = map ReportIssue reported @ [ReportFinish]
                   \<and> length reported = length (filter (\<lambda>row. \<not> is_header row) rows)"
      using Inr p(1) ids p(2) sk len by (intro exI conjI)
    have "trace st' = trace st @ (new @ [ReportFinish])
        \<and> requests (new @ [ReportFinish]) = map ?rq pids
        \<and> distinct pids
        \<and> (\<not> isl r \<longrightarrow> (\<exists>lines rows reported.
                   py_splitlines data = Inr lines
                   \<and> csv_reader env lines = map Inr rows
                   \<and> set pids = hd ` {row \<in> set rows. \<not> is_header row}
                   \<and> list_all2 (\<lambda>row i. \<exists>info. create_issue row info = Inr i)
                        (filter (\<lambda>row. \<not> is_header row) rows) reported
                   \<and> sink_events (new @ [ReportFinish]) = map ReportIssue reported @ [ReportFinish]
                   \<and> length reported = length (filter (\<lambda>row. \<not> is_header row) rows)))"
      using t rq n(3) fin by simp
    then show ?thesis by (intro exI)
  qed
qed

theorem plugin_info_fetched_once_witness:
  "(\<exists>pids reported.
      requests (trace (snd (parse_csv_data (demo_env (drop 12 (demo_script ''run-1'')))
               (JStr demo_body) (demo_plugin ''p''))))
        = map (\<lambda>pid. request_of (demo_env (drop 12 (demo_script ''run-1''))) ''GET''
                 (''/plugins/plugin/'' @ pid) JNull (demo_plugin ''p'')) pids
      \<and> distinct pids
      \<and> set pids = {''10287''}
      \<and> list_all2 (\<lambda>row i. \<exists>info. create_issue row info = Inr i)
           [[''10287'', [], [], ''Low'', ''10.0.1.1'', ''udp'', ''88'', ''Traceroute'',
             ''syn'', ''desc'', ''sol'', ''see'', ''out''],
            [''10287'', [], [], ''None'', ''10.0.1.2'', ''udp'', ''0'', ''Traceroute'',
             ''syn2'', ''desc2'', ''sol2'', ''see2'', ''out2'']] reported
      \<and> sink_events (trace (snd (parse_csv_data (demo_env (drop 12 (demo_script ''run-1'')))
               (JStr demo_body) (demo_plugin ''p''))))
          = map ReportIssue reported @ [ReportFinish])
   \<and> map url (requests (trace (snd (parse_csv_data (demo_env (drop 12 (demo_script ''run-1'')))
               (JStr demo_body) (demo_plugin ''p'')))))
       = [''https://nessus:8834/plugins/plugin/10287'']
   \<and> map Description (concat (map (\<lambda>e. case e of ReportIssue i \<Rightarrow> [i] | _ \<Rightarrow> [])
         (trace (snd (parse_csv_data (demo_env (drop 12 (demo_script ''run-1'')))
               (JStr demo_body) (demo_plugin ''p''))))))
       = [''Traceroute Information syn desc sol out'',
          ''Traceroute Information syn2 desc2 sol2 out2'']"
proof -
  let ?env = "demo_env (drop 12 (demo_script ''run-1''))"
  let ?run = "parse_csv_data ?env (JStr demo_body) (demo_plugin ''p'')"
  let ?f = "\<lambda>l. if l = [] then [] else split_commas [] l"
  let ?rows = "[[''10287'', [], [], ''Low'', ''10.0.1.1'', ''udp'', ''88'', ''Traceroute'',
             ''syn'', ''desc'', ''sol'', ''see'', ''out''],
            [''10287'', [], [], ''None'', ''10.0.1.2'', ''udp'', ''0'', ''Traceroute'',
             ''syn2'', ''desc2'', ''sol2'', ''see2'', ''out2'']]"
  have u: "map url (requests (trace (snd ?run))) = [''https://nessus:8834/plugins/plugin/10287'']"
    by code_simp
  have k: "map Description (concat (map (\<lambda>e. case e of ReportIssue i \<Rightarrow> [i] | _ \<Rightarrow> [])
             (trace (snd ?run))))
           = [''Traceroute Information syn desc sol out'',
              ''Traceroute Information syn2 desc2 sol2 out2'']"
    by code_simp
  have ok: "\<not> isl (fst ?run)"
    by code_simp
  have data_rows: "filter (\<lambda>row. \<not> is_header row) (map ?f (splitlines_acc [] demo_body)) = ?rows"
    by code_simp
  have "?run = (fst ?run, snd ?run)"
    by simp
  from plugin_info_fetched_once [OF this] ok
  obtain new pids lines rows reported where n:
      "trace (snd ?run) = trace (demo_plugin ''p'') @ new"
      "requests new = map (\<lambda>pid. request_of ?env ''GET'' (''/plugins/plugin/'' @ pid) JNull
                                   (demo_plugin ''p'')) pids"
      "distinct pids"
      "py_splitlines (JStr demo_body) = Inr lines"
      "csv_reader ?env lines = map Inr rows"
      "set pids = hd ` {row \<in> set rows. \<not> is_header row}"
      "list_all2 (\<lambda>row i. \<exists>info. create_issue row info = Inr i)
         (filter (\<lambda>row. \<not> is_header row) rows) reported"
      "sink_events new = map ReportIssue reported @ [ReportFinish]"
    by blast
  have tr: "trace (snd ?run) = new"
    using n(1) by (simp add: demo_plugin_def)
  have lines: "lines = splitlines_acc [] demo_body"
    using n(4) by simp
  have "map Inr (map ?f lines) = (map Inr rows :: (py_error + string list) list)"
    using n(5) by (simp add: demo_env_def plain_csv_reader_def comp_def)
  then have "map ?f lines = rows"
    using inj_map_eq_map [OF inj_Inr] by blast
  then have rows: "rows = map ?f (splitlines_acc [] demo_body)"
    unfolding lines by (rule sym)
  have dr: "filter (\<lambda>row. \<not> is_header row) rows = ?rows"
    unfolding rows by (rule data_rows)
  have "{row \<in> set rows. \<not> is_header row} = set ?rows"
    using dr by (metis set_filter)
  then have ids: "set pids = {''10287''}"
    using n(6) by simp
  have "requests (trace (snd ?run))
        = map (\<lambda>pid. request_of ?env ''GET'' (''/plugins/plugin/'' @ pid) JNull (demo_plugin ''p'')) pids
      \<and> distinct pids \<and> set pids = {''10287''}
      \<and> list_all2 (\<lambda>row i. \<exists>info. create_issue row info = Inr i) ?rows reported
      \<and> sink_events (trace (snd ?run)) = map ReportIssue reported @ [ReportFinish]"
    using n(2,3,7,8) ids unfolding tr dr by simp
  then have "\<exists>pids reported. requests (trace (snd ?run))
        = map (\<lambda>pid. request_of ?env ''GET'' (''/plugins/plugin/'' @ pid) JNull (demo_plugin ''p'')) pids
      \<and> distinct pids \<and> set pids = {''10287''}
      \<and> list_all2 (\<lambda>row i. \<exists>info. create_issue row info = Inr i) ?rows reported
      \<and> sink_events (trace (snd ?run)) = map ReportIssue reported @ [ReportFinish]"
    by (intro exI)
  with u k show ?thesis
    by simp
qed

end
